theory Spec2Isabelle
  imports Complex_Main "HOL-Library.Word"
begin

unbundle bit_operations_syntax

section \<open>Machine integers and conversions\<close>

text \<open>
  The C++ source computes with \<open>int64_t\<close>, \<open>uint64_t\<close> and \<open>double\<close>.
  Integer values are modelled as \<open>int\<close>; every operation whose C++ result type is
  64 bits wide is followed by the reduction into that type (\<open>s64\<close> for the signed,
  \<open>u64\<close> for the unsigned type), so wrap-around is written out where it can happen.
  A value of type \<open>double\<close> is modelled by the real number it denotes. Every conversion
  of an integer to \<open>double\<close> and every arithmetic operation on doubles in the timer
  class delivers the exact result rounded to the nearest number with a significand of 53
  bits, halfway cases to the even significand (\<open>rnd\<close> below), as IEEE 754 binary64
  arithmetic does in its default rounding mode. The exponent is not bounded in the model:
  overflow to infinity and subnormal numbers, which need magnitudes above \<open>2^1023\<close> or
  below \<open>2^-1022\<close>, do not occur, and a quotient with divisor zero is 0.
\<close>

definition INT64_MAX :: int where
  "INT64_MAX = 9223372036854775807"

definition INT64_MIN :: int where
  "INT64_MIN = - 9223372036854775808"

definition is_int64 :: "int \<Rightarrow> bool" where
  "is_int64 x = (INT64_MIN \<le> x \<and> x \<le> INT64_MAX)"

definition u64 :: "int \<Rightarrow> int" where
  "u64 x = x mod 18446744073709551616"

definition s64 :: "int \<Rightarrow> int" where
  "s64 x = (x + 9223372036854775808) mod 18446744073709551616 - 9223372036854775808"

definition tdiv :: "int \<Rightarrow> int \<Rightarrow> int" where
  \<comment> \<open>C++ integer division truncates toward zero.\<close>
  "tdiv a b = sgn a * sgn b * (\<bar>a\<bar> div \<bar>b\<bar>)"

definition ONE_BILLION :: int where
  "ONE_BILLION = 1000000000"

definition ONE_QUADRILLION :: real where
  "ONE_QUADRILLION = 1000000000000000"

definition d2i :: "real \<Rightarrow> int" where
  \<comment> \<open>\<open>static_cast<int64_t>\<close> of a double: the fractional part is discarded. A value
     that does not fit is undefined behaviour in C++; the model returns what the x86-64
     conversion instruction delivers then, the smallest 64-bit integer.\<close>
  "d2i x = (let n = (if 0 \<le> x then \<lfloor>x\<rfloor> else \<lceil>x\<rceil>)
            in if is_int64 n then n else INT64_MIN)"

subsection \<open>Rounding to double precision\<close>

fun bits :: "nat \<Rightarrow> nat" where
  \<comment> \<open>the number of binary digits of a natural number\<close>
  "bits n = (if n = 0 then 0 else Suc (bits (n div 2)))"

declare bits.simps [simp del]

definition pow2 :: "int \<Rightarrow> real" where
  "pow2 e = (if 0 \<le> e then 2 ^ nat e else 1 / 2 ^ nat (- e))"

definition expo :: "real \<Rightarrow> int" where
  \<comment> \<open>the binary exponent of a non-zero number: \<open>pow2 (expo x) \<le> \<bar>x\<bar> < pow2 (expo x + 1)\<close>\<close>
  "expo x = (if 1 \<le> \<bar>x\<bar> then int (bits (nat \<lfloor>\<bar>x\<bar>\<rfloor>)) - 1
             else - int (bits (nat (\<lceil>1 / \<bar>x\<bar>\<rceil> - 1))))"

definition rne :: "real \<Rightarrow> int" where
  \<comment> \<open>the nearest integer, halfway cases to the even one\<close>
  "rne y = (let f = \<lfloor>y\<rfloor>; r = y - of_int f
            in if r < 1 / 2 then f
               else if 1 / 2 < r then f + 1
               else if even f then f else f + 1)"

definition rnd :: "real \<Rightarrow> real" where
  \<comment> \<open>the nearest number \<open>m * 2^e\<close> with an integer \<open>m\<close> of at most 53 bits\<close>
  "rnd x = (if x = 0 then 0
            else let e = expo x - 52 in of_int (rne (x / pow2 e)) * pow2 e)"

definition i2d :: "int \<Rightarrow> real" where
  \<comment> \<open>conversion of an \<open>int64_t\<close> or \<open>uint64_t\<close> value to \<open>double\<close>\<close>
  "i2d n = rnd (real_of_int n)"

definition dmul :: "real \<Rightarrow> real \<Rightarrow> real" where
  "dmul a b = rnd (a * b)"

definition ddiv :: "real \<Rightarrow> real \<Rightarrow> real" where
  "ddiv a b = rnd (a / b)"

definition dadd :: "real \<Rightarrow> real \<Rightarrow> real" where
  "dadd a b = rnd (a + b)"

section \<open>Data model\<close>

datatype TimeSource = TSC | HPET | OS

datatype hp_error =
    IllegalInit   \<comment> \<open>\<open>std::out_of_range ( "illegal init Parameters of HighPerTimer" )\<close>\<close>
  | Overflow      \<comment> \<open>\<open>std::out_of_range ( "HPTimer overflow" )\<close>\<close>
  | InitAborted   \<comment> \<open>\<open>std::exception()\<close> thrown by the frequency initialisation\<close>

record HighPerTimer =
  mSeconds :: int
  mNSeconds :: int
  mSign :: bool
  mHPTics :: int
  mNormalized :: bool
  mInterrupted :: bool
  mCancelled :: bool

text \<open>The static members of class \<open>HighPerTimer\<close>.\<close>

record statics =
  HPTimer_MAX :: HighPerTimer
  HPTimer_MIN :: HighPerTimer
  HPTimerSource :: TimeSource
  TicsPerUsec :: int
  NsecPerTic :: real
  UnixZeroShift :: int
  HPJiffies :: real

definition HPTics :: "HighPerTimer \<Rightarrow> int" where
  "HPTics t = mHPTics t"

definition HighPerTimer_default :: "HighPerTimer \<Rightarrow> HighPerTimer" where
  \<comment> \<open>The standard constructor initialises \<open>mHPTics\<close> and \<open>mNormalized\<close> only; the
     argument stands for the indeterminate contents of the other members.\<close>
  "HighPerTimer_default u = u\<lparr>mHPTics := 0, mNormalized := False\<rparr>"

section \<open>Setting the tick count\<close>

text \<open>
  A member function that can throw returns \<open>Inl (e, t')\<close> with the exception \<open>e\<close> and
  the receiver \<open>t'\<close> as the throw leaves it, or \<open>Inr t'\<close> with the receiver on return.
\<close>

definition SetTics :: "statics \<Rightarrow> HighPerTimer \<Rightarrow> int \<Rightarrow> (hp_error \<times> HighPerTimer) + HighPerTimer" where
  "SetTics g t tics =
     (if tics \<le> HPTics (HPTimer_MAX g) \<or> tics \<ge> HPTics (HPTimer_MAX g)
      then Inr (t\<lparr>mHPTics := tics, mNormalized := False\<rparr>)
      else Inl (Overflow, t))"

definition InitMaxMinHPTimer :: "statics \<Rightarrow> (hp_error \<times> statics) + statics" where
  "InitMaxMinHPTimer g =
     (let mx = (if HPTimerSource g = HPET then tdiv INT64_MAX 120 else INT64_MAX);
          mn = (if HPTimerSource g = HPET then tdiv INT64_MIN 120 else INT64_MIN)
      in case SetTics g (HPTimer_MAX g) mx of
           Inl (e, m) \<Rightarrow> Inl (e, g\<lparr>HPTimer_MAX := m\<rparr>)
         | Inr m \<Rightarrow>
             (let g1 = g\<lparr>HPTimer_MAX := m\<rparr>
              in case SetTics g1 (HPTimer_MIN g1) mn of
                   Inl (e, n) \<Rightarrow> Inl (e, g1\<lparr>HPTimer_MIN := n\<rparr>)
                 | Inr n \<Rightarrow> Inr (g1\<lparr>HPTimer_MIN := n\<rparr>)))"

section \<open>Normalisation and the accessors\<close>

definition c_abs :: "int \<Rightarrow> int" where
  \<comment> \<open>\<open>std::abs\<close> on \<open>int64_t\<close>; the absolute value of the smallest integer wraps.\<close>
  "c_abs x = s64 \<bar>x\<bar>"

definition tics_to_nsecs :: "statics \<Rightarrow> int \<Rightarrow> int" where
  \<comment> \<open>\<open>static_cast<int64_t> ( Tics * NsecPerTic )\<close>: the tick count is converted to
     \<open>double\<close>, multiplied, and the product converted back.\<close>
  "tics_to_nsecs g n = d2i (dmul (i2d n) (NsecPerTic g))"

definition Normalize :: "statics \<Rightarrow> HighPerTimer \<Rightarrow> HighPerTimer" where
  "Normalize g t =
     (if mNormalized t then t
      else
        let sign = (drop_bit 63 (mHPTics t) \<noteq> 0);
            toNSecs = tics_to_nsecs g (mHPTics t);
            toNSecs = (if drop_bit 63 toNSecs \<noteq> 0 then c_abs toNSecs else toNSecs)
        in t\<lparr>mSign := sign,
              mSeconds := s64 (u64 toNSecs div ONE_BILLION),
              mNSeconds := s64 (u64 toNSecs mod ONE_BILLION),
              mNormalized := True\<rparr>)"

text \<open>
  The accessors normalise the receiver and return a member as \<open>uint64_t\<close>. They are
  used on \<open>HPTimer_MAX\<close> only, and the model returns their value without storing the
  normalised members back into the static object.
\<close>

definition Seconds :: "statics \<Rightarrow> HighPerTimer \<Rightarrow> int" where
  "Seconds g t = u64 (mSeconds (Normalize g t))"

definition NSeconds :: "statics \<Rightarrow> HighPerTimer \<Rightarrow> int" where
  "NSeconds g t = u64 (mNSeconds (Normalize g t))"

definition max_nsecs :: "statics \<Rightarrow> int" where
  \<comment> \<open>\<open>HPTimer_MAX.Seconds() * ONE_BILLION + HPTimer_MAX.NSeconds()\<close>, in \<open>uint64_t\<close>.\<close>
  "max_nsecs g =
     u64 (u64 (Seconds g (HPTimer_MAX g) * ONE_BILLION) + NSeconds g (HPTimer_MAX g))"

section \<open>Constructors\<close>

text \<open>
  A constructor returns \<open>Inl e\<close> when it throws and \<open>Inr t\<close> with the new object
  otherwise. Its argument \<open>u\<close> stands for the indeterminate contents of the members that
  the constructor does not initialise.
\<close>

definition biased_period :: "statics \<Rightarrow> real" where
  \<comment> \<open>\<open>NsecPerTic + ( 1/ONE_QUADRILLION )\<close>\<close>
  "biased_period g = dadd (NsecPerTic g) (ddiv 1 ONE_QUADRILLION)"

definition tics_of_nsecs :: "statics \<Rightarrow> int \<Rightarrow> int" where
  \<comment> \<open>\<open>static_cast<int64_t> ( nano / ( NsecPerTic + ( 1/ONE_QUADRILLION ) ) )\<close> with
     \<open>nano\<close> of type \<open>uint64_t\<close>, converted to \<open>double\<close> for the division\<close>
  "tics_of_nsecs g nano = d2i (ddiv (i2d nano) (biased_period g))"

definition HighPerTimer_sns ::
  "statics \<Rightarrow> HighPerTimer \<Rightarrow> int \<Rightarrow> int \<Rightarrow> bool \<Rightarrow> hp_error + HighPerTimer" where
  \<comment> \<open>\<open>HighPerTimer ( int64_t Seconds, int64_t NSeconds, bool Sign )\<close>\<close>
  "HighPerTimer_sns g u Secs NSecs Sign =
     (if (Secs < 0 \<or> NSecs < 0) \<and> Sign then Inl IllegalInit
      else if NSecs < 0 \<and> Secs \<noteq> 0 then Inl IllegalInit
      else
        let sign1 = (if Secs < 0 then True else Sign);
            S = (if Secs < 0 then s64 (Secs * (- 1)) else Secs);
            sign2 = (if NSecs < 0 then True else sign1);
            N = (if NSecs < 0 then s64 (NSecs * (- 1)) else NSecs);
            secs = s64 (u64 (u64 S + u64 N div ONE_BILLION))
        in if 0 > secs then Inl Overflow
           else
             let nsecs = s64 (u64 N mod ONE_BILLION);
                 nano = u64 (u64 (u64 secs * ONE_BILLION) + u64 nsecs)
             in if nano > max_nsecs g then Inl Overflow
                else Inr (u\<lparr>mSign := sign2, mNormalized := True, mSeconds := secs,
                            mNSeconds := nsecs,
                            mHPTics := (if sign2 then s64 (- tics_of_nsecs g nano)
                                        else tics_of_nsecs g nano)\<rparr>))"

definition HighPerTimer_ts ::
  "statics \<Rightarrow> HighPerTimer \<Rightarrow> int \<Rightarrow> int \<Rightarrow> hp_error + HighPerTimer" where
  \<comment> \<open>\<open>HighPerTimer ( const timespec & TS )\<close> with the members \<open>tv_sec\<close> and
     \<open>tv_nsec\<close> of the argument\<close>
  "HighPerTimer_ts g u tv_sec tv_nsec =
     (let nano = u64 (u64 (u64 tv_sec * ONE_BILLION) + u64 tv_nsec)
      in if nano > max_nsecs g then Inl Overflow
         else Inr (u\<lparr>mSeconds := tv_sec, mNSeconds := tv_nsec, mSign := False,
                     mNormalized := True, mHPTics := tics_of_nsecs g nano\<rparr>))"

definition HighPerTimer_tv ::
  "statics \<Rightarrow> HighPerTimer \<Rightarrow> int \<Rightarrow> int \<Rightarrow> hp_error + HighPerTimer" where
  \<comment> \<open>\<open>HighPerTimer ( const timeval & TV )\<close> delegates to the constructor from
     \<open>timespec { TV.tv_sec, TV.tv_usec * 1000 }\<close>.\<close>
  "HighPerTimer_tv g u tv_sec tv_usec = HighPerTimer_ts g u tv_sec (s64 (tv_usec * 1000))"

definition HighPerTimer_tics ::
  "statics \<Rightarrow> HighPerTimer \<Rightarrow> int \<Rightarrow> bool \<Rightarrow> hp_error + HighPerTimer" where
  \<comment> \<open>\<open>HighPerTimer ( int64_t HPTics, bool Shift )\<close>\<close>
  "HighPerTimer_tics g u tics Shift =
     (let shifted =
            (if Shift then
               (if s64 (HPTics (HPTimer_MAX g) - UnixZeroShift g) \<ge> tics \<and>
                   s64 (HPTics (HPTimer_MIN g) + UnixZeroShift g) \<le> tics
                then Inr (s64 (tics + UnixZeroShift g))
                else Inl Overflow)
             else Inr tics)
      in case shifted of
           Inl e \<Rightarrow> Inl e
         | Inr n \<Rightarrow>
             if n > HPTics (HPTimer_MAX g) \<or> n < HPTics (HPTimer_MIN g) then Inl Overflow
             else Inr (u\<lparr>mHPTics := n, mNormalized := False\<rparr>))"

definition SetTimer ::
  "statics \<Rightarrow> HighPerTimer \<Rightarrow> int \<Rightarrow> int \<Rightarrow> bool \<Rightarrow> (hp_error \<times> HighPerTimer) + HighPerTimer" where
  \<comment> \<open>\<open>SetTimer ( uint64_t Seconds, uint64_t NSeconds, bool Sign )\<close>: the three members
     are assigned before the range check.\<close>
  "SetTimer g t Secs NSecs Sign =
     (let t1 = t\<lparr>mSeconds := s64 Secs, mNSeconds := s64 NSecs, mSign := Sign\<rparr>;
          nano = u64 (u64 (u64 (mSeconds t1) * ONE_BILLION) + u64 (mNSeconds t1))
      in if nano > max_nsecs g then Inl (Overflow, t1)
         else Inr (t1\<lparr>mHPTics := (if mSign t1 then s64 (- tics_of_nsecs g nano)
                                    else tics_of_nsecs g nano),
                       mNormalized := True\<rparr>))"

definition SetTimer_tv ::
  "statics \<Rightarrow> HighPerTimer \<Rightarrow> int \<Rightarrow> int \<Rightarrow> (hp_error \<times> HighPerTimer) + HighPerTimer" where
  \<comment> \<open>\<open>SetTimer ( const timeval TV )\<close>: \<open>SetTimer ( TV.tv_sec, TV.tv_usec * 1000LL )\<close>\<close>
  "SetTimer_tv g t tv_sec tv_usec = SetTimer g t (u64 tv_sec) (u64 (s64 (tv_usec * 1000))) False"

definition SetTimer_ts ::
  "statics \<Rightarrow> HighPerTimer \<Rightarrow> int \<Rightarrow> int \<Rightarrow> (hp_error \<times> HighPerTimer) + HighPerTimer" where
  \<comment> \<open>\<open>SetTimer ( const timespec TS )\<close>: \<open>SetTimer ( TS.tv_sec, TS.tv_nsec )\<close>\<close>
  "SetTimer_ts g t tv_sec tv_nsec = SetTimer g t (u64 tv_sec) (u64 tv_nsec) False"

section \<open>Arithmetic\<close>

definition operator_plus ::
  "statics \<Rightarrow> HighPerTimer \<Rightarrow> HighPerTimer \<Rightarrow> HighPerTimer \<Rightarrow> hp_error + HighPerTimer" where
  \<comment> \<open>\<open>operator+ ( const HighPerTimer & Timer1, const HighPerTimer & Timer2 )\<close>\<close>
  "operator_plus g u Timer1 Timer2 =
     (if HPTics Timer2 > 0 \<and>
         s64 (HPTics (HPTimer_MAX g) - HPTics Timer2) \<le> HPTics Timer1 then Inl Overflow
      else if HPTics Timer2 < 0 \<and>
         s64 (HPTics (HPTimer_MIN g) - HPTics Timer2) \<ge> HPTics Timer1 then Inl Overflow
      else HighPerTimer_tics g u (s64 (HPTics Timer1 + HPTics Timer2)) False)"

definition TicAdd ::
  "statics \<Rightarrow> HighPerTimer \<Rightarrow> int \<Rightarrow> (hp_error \<times> HighPerTimer) + HighPerTimer" where
  \<comment> \<open>\<open>TicAdd ( const uint64_t Tics )\<close>: the subtraction and the addition are unsigned.\<close>
  "TicAdd g t Tics =
     (if s64 (u64 (u64 (HPTics (HPTimer_MAX g)) - Tics)) \<ge> mHPTics t
      then Inr (t\<lparr>mHPTics := s64 (u64 (u64 (mHPTics t) + Tics)), mNormalized := False\<rparr>)
      else Inl (Overflow, t))"

definition InvertSign :: "HighPerTimer \<Rightarrow> (hp_error \<times> HighPerTimer) + HighPerTimer" where
  "InvertSign t =
     (let t1 = t\<lparr>mSign := \<not> mSign t\<rparr>
      in if mHPTics t1 \<noteq> INT64_MIN
         then Inr (t1\<lparr>mHPTics := s64 (mHPTics t1 * (- 1))\<rparr>)
         else Inl (Overflow, t1))"

section \<open>Reading the HPET main counter\<close>

text \<open>
  The mapped HPET register block is a function from byte offsets to bytes. A load through
  an \<open>int32_t\<close> pointer reads four bytes, least significant first, as a two's complement
  number.
\<close>

type_synonym hpet_region = "nat \<Rightarrow> 8 word"

definition MainCounterOffset :: nat where
  "MainCounterOffset = 0x0f0"

fun le_value :: "8 word list \<Rightarrow> int" where
  "le_value [] = 0"
| "le_value (b # bs) = uint b + 256 * le_value bs"

definition load_int32 :: "hpet_region \<Rightarrow> nat \<Rightarrow> int" where
  "load_int32 m a =
     (let v = le_value [m a, m (a + 1), m (a + 2), m (a + 3)]
      in if v < 2147483648 then v else v - 4294967296)"

definition GetHPETTics :: "hpet_region \<Rightarrow> int" where
  \<comment> \<open>The \<open>__x86_64__\<close> branch: the loaded \<open>int32_t\<close> initialises a \<open>uint64_t\<close>, which
     is returned as \<open>int64_t\<close>.\<close>
  "GetHPETTics HpetAdd_ptr = s64 (u64 (load_int32 HpetAdd_ptr MainCounterOffset))"

definition main_counter_register :: "hpet_region \<Rightarrow> int" where
  \<comment> \<open>The 64-bit unsigned value held by the eight bytes of the main counter register.\<close>
  "main_counter_register m =
     le_value [m 240, m 241, m 242, m 243, m 244, m 245, m 246, m 247]"

section \<open>Interruptible sleep\<close>

text \<open>
  A sleep runs on the thread that calls it, while \<open>Interrupt\<close> is called on the same
  object from another thread, and the timer is read from hardware. Both are inputs of the
  model: \<open>first_tics\<close> is the tick count read when the deadline is computed,
  \<open>intr_early\<close> tells whether another thread executes \<open>Interrupt\<close> after the sleeper
  has cleared its flags and before it tests \<open>mInterrupted\<close> under the mutex,
  \<open>intr_wait\<close> whether it does so during the timed wait, and \<open>spin_reads\<close> lists, for
  each evaluation of the busy-wait condition, the tick count read and whether
  \<open>Interrupt\<close> was executed since the previous evaluation. A sleep returns the
  receiver, the flag writes, mutex acquisitions and timed waits it performed, in order,
  and the way it ended. The list \<open>spin_reads\<close> bounds the number of loop iterations:
  \<open>NoMoreReads\<close> says that it was used up before the loop ended.
\<close>

record sleep_env =
  first_tics :: int
  intr_early :: bool
  intr_wait :: bool
  spin_reads :: "(int \<times> bool) list"

datatype sleep_event =
    WriteCancelled bool
  | WriteInterrupted bool
  | LockMutex
  | WaitFor int   \<comment> \<open>\<open>HPcond.wait_for\<close> with a duration in microseconds\<close>

datatype wake = TargetReached | InterruptedEarly | NoMoreReads | Threw hp_error

type_synonym sleep_result = "HighPerTimer \<times> sleep_event list \<times> wake"

definition Interrupt :: "HighPerTimer \<Rightarrow> HighPerTimer" where
  \<comment> \<open>\<open>Interrupt()\<close> run without interleaving: the \<open>while\<close> loop between the two
     assignments is not entered.\<close>
  "Interrupt t = t\<lparr>mCancelled := True, mInterrupted := True\<rparr>"

definition interfere :: "bool \<Rightarrow> HighPerTimer \<Rightarrow> HighPerTimer" where
  "interfere b t = (if b then Interrupt t else t)"

definition d2u :: "real \<Rightarrow> int" where
  \<comment> \<open>\<open>static_cast<uint64_t>\<close> of a double; a value that does not fit is undefined
     behaviour, the model returns 0 then.\<close>
  "d2u x = (if 0 \<le> x \<and> x < 18446744073709551616 then \<lfloor>x\<rfloor> else 0)"

definition Now :: "statics \<Rightarrow> HighPerTimer \<Rightarrow> int \<Rightarrow> hp_error + HighPerTimer" where
  \<comment> \<open>\<open>HighPerTimer { GetTimerTics(), true }\<close> with the tick count read as argument\<close>
  "Now g u tics = HighPerTimer_tics g u tics True"

definition coarse_wait :: "sleep_env \<Rightarrow> HighPerTimer \<Rightarrow> int \<Rightarrow> HighPerTimer \<times> sleep_event list" where
  \<comment> \<open>The block guarded by the length of the interval, the same in every sleep:
     lock \<open>HPmutex\<close>, set \<open>mCancelled\<close> if \<open>mInterrupted\<close> is set, call
     \<open>HPcond.wait_for\<close>.\<close>
  "coarse_wait env t d =
     (if mInterrupted t
      then (interfere (intr_wait env) (t\<lparr>mCancelled := True\<rparr>),
            [LockMutex, WriteCancelled True, WaitFor d])
      else (interfere (intr_wait env) t, [LockMutex, WaitFor d]))"

fun spin :: "HighPerTimer \<Rightarrow> int \<Rightarrow> int \<Rightarrow> (int \<times> bool) list \<Rightarrow> HighPerTimer \<times> wake" where
  \<comment> \<open>\<open>while ( GetTimerTics() < TargetTics ) { if ( 0 == ( ++Counter & 0x0F ) && mInterrupted ) return; RepNop(); }\<close>\<close>
  "spin t TargetTics Counter [] = (t, NoMoreReads)"
| "spin t TargetTics Counter ((tics, intr) # rs) =
     (let t1 = interfere intr t
      in if tics < TargetTics
         then (if (Counter + 1) AND 15 = 0 \<and> mInterrupted t1 then (t1, InterruptedEarly)
               else spin t1 TargetTics (Counter + 1) rs)
         else (t1, TargetReached))"

fun spin_now ::
  "statics \<Rightarrow> HighPerTimer \<Rightarrow> int \<Rightarrow> int \<Rightarrow> (int \<times> bool) list \<Rightarrow> HighPerTimer \<times> wake" where
  \<comment> \<open>The loop of \<open>SleepTo ( const HighPerTimer & )\<close> and \<open>SleepToThis\<close>, whose
     condition constructs \<open>Now()\<close>.\<close>
  "spin_now g t TargetTics Counter [] = (t, NoMoreReads)"
| "spin_now g t TargetTics Counter ((tics, intr) # rs) =
     (let t1 = interfere intr t
      in case Now g t1 tics of
           Inl e \<Rightarrow> (t1, Threw e)
         | Inr n \<Rightarrow>
             if HPTics n < TargetTics
             then (if (Counter + 1) AND 15 = 0 \<and> mInterrupted t1 then (t1, InterruptedEarly)
                   else spin_now g t1 TargetTics (Counter + 1) rs)
             else (t1, TargetReached))"

definition BusyNSeconds :: "statics \<Rightarrow> int" where
  \<comment> \<open>\<open>static_cast<int64_t> ( HPJiffies * ONE_BILLION )\<close>\<close>
  "BusyNSeconds g = d2i (dmul (HPJiffies g) (i2d ONE_BILLION))"

definition BusyUSeconds :: "statics \<Rightarrow> int" where
  \<comment> \<open>\<open>static_cast<uint64_t> ( HPJiffies * 1000000 )\<close>\<close>
  "BusyUSeconds g = d2u (dmul (HPJiffies g) (i2d 1000000))"

definition USecSleep :: "statics \<Rightarrow> HighPerTimer \<Rightarrow> int \<Rightarrow> sleep_env \<Rightarrow> sleep_result" where
  "USecSleep g t USeconds env =
     (let t1 = t\<lparr>mCancelled := False\<rparr>;
          TargetTics = d2i (dadd (i2d (first_tics env))
                                 (ddiv (i2d (u64 (USeconds * 1000))) (NsecPerTic g)));
          t2 = interfere (intr_early env) (t1\<lparr>mInterrupted := False\<rparr>);
          (t3, evs) = (if USeconds \<ge> BusyUSeconds g
                       then coarse_wait env t2 (s64 (u64 (USeconds - BusyUSeconds g)))
                       else (t2, []));
          (t4, w) = spin t3 TargetTics 0 (spin_reads env)
      in (t4, [WriteCancelled False, WriteInterrupted False] @ evs, w))"

definition NSecSleep :: "statics \<Rightarrow> HighPerTimer \<Rightarrow> int \<Rightarrow> sleep_env \<Rightarrow> sleep_result" where
  "NSecSleep g t NSecs env =
     (let t1 = t\<lparr>mCancelled := False\<rparr>;
          TargetTics = d2i (dadd (i2d (first_tics env)) (ddiv (i2d NSecs) (NsecPerTic g)));
          t2 = interfere (intr_early env) (t1\<lparr>mInterrupted := False\<rparr>);
          Busy = u64 (BusyNSeconds g);
          (t3, evs) = (if NSecs \<ge> Busy
                       then coarse_wait env t2 (s64 (u64 (NSecs - Busy) div 1000))
                       else (t2, []));
          (t4, w) = spin t3 TargetTics 0 (spin_reads env)
      in (t4, [WriteCancelled False, WriteInterrupted False] @ evs, w))"

definition TicsSleep :: "statics \<Rightarrow> HighPerTimer \<Rightarrow> int \<Rightarrow> sleep_env \<Rightarrow> sleep_result" where
  "TicsSleep g t Tics env =
     (let t1 = t\<lparr>mCancelled := False\<rparr>;
          TargetTics = s64 (u64 (u64 (first_tics env) + Tics));
          t2 = interfere (intr_early env) (t1\<lparr>mInterrupted := False\<rparr>);
          (t3, evs) = (if mHPTics t2 > 0 \<and>
                          dmul (i2d Tics) (NsecPerTic g) \<ge> i2d (BusyNSeconds g)
                       then
                         (let AllNSeconds = tics_to_nsecs g Tics
                          in coarse_wait env t2 (tdiv (s64 (AllNSeconds - BusyNSeconds g)) 1000))
                       else (t2, []));
          (t4, w) = spin t3 TargetTics 0 (spin_reads env)
      in (t4, [WriteCancelled False, WriteInterrupted False] @ evs, w))"

definition SleepTo :: "statics \<Rightarrow> HighPerTimer \<Rightarrow> int \<Rightarrow> sleep_env \<Rightarrow> sleep_result" where
  \<comment> \<open>\<open>SleepTo ( const int64_t WakeHPTimer )\<close>\<close>
  "SleepTo g t WakeHPTimer env =
     (let t1 = t\<lparr>mCancelled := False\<rparr>;
          SysNSeconds = tics_to_nsecs g (s64 (WakeHPTimer - first_tics env));
          t2 = interfere (intr_early env) (t1\<lparr>mInterrupted := False\<rparr>);
          (t3, evs) = (if SysNSeconds > 0 \<and> SysNSeconds \<ge> BusyNSeconds g
                       then coarse_wait env t2 (tdiv (s64 (SysNSeconds - BusyNSeconds g)) 1000)
                       else (t2, []));
          (t4, w) = spin t3 WakeHPTimer 0 (spin_reads env)
      in (t4, [WriteCancelled False, WriteInterrupted False] @ evs, w))"

definition sleep_until ::
  "statics \<Rightarrow> HighPerTimer \<Rightarrow> int \<Rightarrow> sleep_env \<Rightarrow> sleep_result" where
  \<comment> \<open>The body shared by \<open>SleepTo ( const HighPerTimer & WaitTo )\<close> and
     \<open>SleepToThis()\<close>, with the deadline's tick count as argument.\<close>
  "sleep_until g t Deadline env =
     (let t1 = t\<lparr>mCancelled := False\<rparr>
      in case Now g t1 (first_tics env) of
           Inl e \<Rightarrow> (t1, [WriteCancelled False], Threw e)
         | Inr n \<Rightarrow>
             (let SysNSeconds = tics_to_nsecs g (s64 (Deadline - HPTics n));
                  t2 = interfere (intr_early env) (t1\<lparr>mInterrupted := False\<rparr>);
                  (t3, evs) = (if SysNSeconds > 0 \<and> SysNSeconds \<ge> BusyNSeconds g
                               then coarse_wait env t2
                                      (tdiv (s64 (SysNSeconds - BusyNSeconds g)) 1000)
                               else (t2, []));
                  (t4, w) = spin_now g t3 Deadline 0 (spin_reads env)
              in (t4, [WriteCancelled False, WriteInterrupted False] @ evs, w)))"

definition SleepTo_timer ::
  "statics \<Rightarrow> HighPerTimer \<Rightarrow> HighPerTimer \<Rightarrow> sleep_env \<Rightarrow> sleep_result" where
  \<comment> \<open>\<open>SleepTo ( const HighPerTimer & WaitTo )\<close>\<close>
  "SleepTo_timer g t WaitTo env = sleep_until g t (mHPTics WaitTo) env"

definition SleepToThis :: "statics \<Rightarrow> HighPerTimer \<Rightarrow> sleep_env \<Rightarrow> sleep_result" where
  "SleepToThis g t env = sleep_until g t (mHPTics t) env"

definition Sleep :: "statics \<Rightarrow> HighPerTimer \<Rightarrow> sleep_env \<Rightarrow> sleep_result" where
  "Sleep g t env =
     (let t1 = t\<lparr>mCancelled := False\<rparr>;
          TargetTics = s64 (first_tics env + mHPTics t1);
          t2 = interfere (intr_early env) (t1\<lparr>mInterrupted := False\<rparr>);
          (t3, evs) = (if mHPTics t2 > 0 \<and>
                          dmul (i2d (mHPTics t2)) (NsecPerTic g) \<ge> i2d (BusyNSeconds g)
                       then
                         (let AllNSeconds = tics_to_nsecs g (mHPTics t2)
                          in coarse_wait env t2 (tdiv (s64 (AllNSeconds - BusyNSeconds g)) 1000))
                       else (t2, []));
          (t4, w) = spin t3 TargetTics 0 (spin_reads env)
      in (t4, [WriteCancelled False, WriteInterrupted False] @ evs, w))"

text \<open>The sleep entry points, as one family.\<close>

datatype sleep_call =
    Call_USecSleep int
  | Call_NSecSleep int
  | Call_TicsSleep int
  | Call_SleepTo int
  | Call_SleepTo_timer HighPerTimer
  | Call_SleepToThis
  | Call_Sleep

fun run_sleep :: "statics \<Rightarrow> HighPerTimer \<Rightarrow> sleep_call \<Rightarrow> sleep_env \<Rightarrow> sleep_result" where
  "run_sleep g t (Call_USecSleep n) env = USecSleep g t n env"
| "run_sleep g t (Call_NSecSleep n) env = NSecSleep g t n env"
| "run_sleep g t (Call_TicsSleep n) env = TicsSleep g t n env"
| "run_sleep g t (Call_SleepTo n) env = SleepTo g t n env"
| "run_sleep g t (Call_SleepTo_timer w) env = SleepTo_timer g t w env"
| "run_sleep g t Call_SleepToThis env = SleepToThis g t env"
| "run_sleep g t Call_Sleep env = Sleep g t env"

definition quiet :: "sleep_env \<Rightarrow> bool" where
  \<comment> \<open>No other thread calls \<open>Interrupt\<close> while the sleep runs.\<close>
  "quiet env = (\<not> intr_early env \<and> \<not> intr_wait env \<and> list_all (\<lambda>r. \<not> snd r) (spin_reads env))"

section \<open>Calibration of the TSC frequency\<close>







definition mean_of :: "real list \<Rightarrow> real" where
  "mean_of v = sum_list v / real (length v)"

definition stdev_of :: "real list \<Rightarrow> real" where
  "stdev_of v =
     (let accum = foldl (\<lambda>a d. a + (d - mean_of v) * (d - mean_of v)) 0 v
      in sqrt (accum / (real (length v) - 1)))"




section \<open>Observations and example configurations\<close>

definition events :: "sleep_result \<Rightarrow> sleep_event list" where
  "events r = fst (snd r)"

definition wake_of :: "sleep_result \<Rightarrow> wake" where
  "wake_of r = snd (snd r)"

definition now_tics :: "statics \<Rightarrow> int \<Rightarrow> hp_error + int" where
  \<comment> \<open>the exception or the tick count of \<open>Now()\<close>, which do not depend on the members
     that the constructor leaves uninitialised\<close>
  "now_tics g x =
     map_sum id HPTics
       (Now g \<lparr>mSeconds = 0, mNSeconds = 0, mSign = False, mHPTics = 0, mNormalized = False,
               mInterrupted = False, mCancelled = False\<rparr> x)"

definition first_now_throws :: "statics \<Rightarrow> sleep_call \<Rightarrow> sleep_env \<Rightarrow> bool" where
  \<comment> \<open>\<open>SleepTo ( const HighPerTimer & )\<close> and \<open>SleepToThis\<close> construct \<open>Now()\<close>
     between the two assignments to the flags; the other sleeps read the tick counter
     there, which cannot throw.\<close>
  "first_now_throws g call env =
     (case call of
        Call_SleepTo_timer w \<Rightarrow> isl (now_tics g (first_tics env))
      | Call_SleepToThis \<Rightarrow> isl (now_tics g (first_tics env))
      | _ \<Rightarrow> False)"

text \<open>
  \<open>zero_timer\<close> is a timer as the standard constructor leaves it in zeroed memory, and
  \<open>timer_of_tics n\<close> the same timer holding \<open>n\<close> ticks. \<open>hpet_statics\<close> has the
  HPET as time source with a period of 10 ns and the bounds that \<open>InitMaxMinHPTimer\<close>
  computes for it; \<open>tsc_statics\<close> has the TSC at one tick per nanosecond and the full
  64-bit range. Both have a kernel tick of 4 ms.
\<close>

definition zero_timer :: HighPerTimer where
  "zero_timer = HighPerTimer_default
     \<lparr>mSeconds = 0, mNSeconds = 0, mSign = False, mHPTics = 0, mNormalized = False,
      mInterrupted = False, mCancelled = False\<rparr>"

definition timer_of_tics :: "int \<Rightarrow> HighPerTimer" where
  "timer_of_tics n = zero_timer\<lparr>mHPTics := n\<rparr>"

definition hpet_statics :: statics where
  "hpet_statics =
     \<lparr>HPTimer_MAX = timer_of_tics 76861433640456465,
      HPTimer_MIN = timer_of_tics (- 76861433640456465),
      HPTimerSource = HPET, TicsPerUsec = 100, NsecPerTic = 10,
      UnixZeroShift = 0, HPJiffies = ddiv 1 250\<rparr>"

definition tsc_statics :: statics where
  "tsc_statics =
     \<lparr>HPTimer_MAX = timer_of_tics INT64_MAX,
      HPTimer_MIN = timer_of_tics INT64_MIN,
      HPTimerSource = TSC, TicsPerUsec = 1000, NsecPerTic = 1,
      UnixZeroShift = 0, HPJiffies = ddiv 1 250\<rparr>"

text \<open>
  \<open>hpet_today\<close> is \<open>hpet_statics\<close> with the shift to Unix time that
  \<open>InitUnixZeroShift\<close> computes at a date in the year 2023: \<open>1.7 * 10^9\<close> seconds at
  10 ns per tick.
\<close>

definition hpet_today :: statics where
  "hpet_today = hpet_statics\<lparr>UnixZeroShift := 170000000000000000\<rparr>"

text \<open>
  A register block whose main counter holds \<open>2^32\<close>: the byte at offset \<open>0x0F4\<close> is 1,
  all others are 0.
\<close>

definition counter_4G :: hpet_region where
  "counter_4G = (\<lambda>a. 0)(244 := 1)"

text \<open>
  A sleep during which the timer has passed every deadline at the first look, without
  and with a call of \<open>Interrupt\<close> right after the sleeper has cleared its flags.
\<close>

definition calm_env :: sleep_env where
  "calm_env = \<lparr>first_tics = 1000, intr_early = False, intr_wait = False,
                spin_reads = [(20000000000, False)]\<rparr>"

definition early_env :: sleep_env where
  "early_env = calm_env\<lparr>intr_early := True\<rparr>"

text \<open>
  The timer that the constructor builds from 9 ns in the configuration \<open>hpet_statics\<close>,
  and the one it builds from zero with the sign requested.
\<close>

definition nine_ns :: HighPerTimer where
  "nine_ns = zero_timer\<lparr>mSign := False, mNormalized := True, mSeconds := 0, mNSeconds := 9,
                        mHPTics := 0\<rparr>"

definition minus_zero :: HighPerTimer where
  "minus_zero = zero_timer\<lparr>mSign := True, mNormalized := True, mSeconds := 0, mNSeconds := 0,
                           mHPTics := 0\<rparr>"

text \<open>
  The samples of a calibration that the outlier test singles out, and example trials: a
  counter at one tick per nanosecond observed over 20 ms (\<open>steady\<close>), the same trial
  with the realtime clock stepped forward by 100 ms (\<open>stepped\<close>) or by 40 ms
  (\<open>slow\<close>). \<open>first_off\<close> and \<open>last_off\<close> are runs of five trials with the first,
  respectively the last, trial stepped; \<open>three_retries\<close> supplies \<open>first_off\<close> to the
  first three executions of the calibration and five slow trials to the fourth.
\<close>

definition peaks :: "real \<Rightarrow> real \<Rightarrow> real list \<Rightarrow> real list" where
  "peaks mean stdev v = filter (\<lambda>x. \<bar>mean - x\<bar> > stdev * 1.7885) v"










section \<open>Facts about the integer conversions\<close>

lemma s64_id: "is_int64 x \<Longrightarrow> s64 x = x"
  by (simp add: is_int64_def s64_def INT64_MIN_def INT64_MAX_def)

lemma s64_u64: "s64 (u64 x) = s64 x"
  by (simp add: s64_def u64_def mod_add_left_eq)

lemma u64_s64: "u64 (s64 x) = u64 x"
proof -
  have "(x + 9223372036854775808) mod 18446744073709551616 - 9223372036854775808
        = x + 9223372036854775808 - 9223372036854775808
          - 18446744073709551616 * ((x + 9223372036854775808) div 18446744073709551616)"
    by (simp add: minus_mult_div_eq_mod [symmetric])
  then have "s64 x = x + 18446744073709551616
                         * (- ((x + 9223372036854775808) div 18446744073709551616))"
    by (simp add: s64_def)
  then show ?thesis
    unfolding u64_def by (metis mod_mult_self2)
qed

lemma drop_bit_63_sign: "is_int64 x \<Longrightarrow> (drop_bit 63 x \<noteq> 0) = (x < 0)"
proof -
  assume a: "is_int64 x"
  have "drop_bit 63 x = x div 9223372036854775808" by (simp add: drop_bit_eq_div)
  moreover have "(x div 9223372036854775808 \<noteq> 0) = (x < 0)"
  proof (cases "x < 0")
    case True
    then have "x div 9223372036854775808 < 0" by (simp add: div_neg_pos_less0)
    with True show ?thesis by simp
  next
    case False
    with a have "0 \<le> x" "x < 9223372036854775808"
      by (simp_all add: is_int64_def INT64_MAX_def)
    then have "x div 9223372036854775808 = 0" by simp
    with False show ?thesis by simp
  qed
  ultimately show ?thesis by simp
qed

lemma d2i_in_range:
  assumes "\<bar>x\<bar> < 9223372036854775808"
  shows "d2i x = (if 0 \<le> x then \<lfloor>x\<rfloor> else \<lceil>x\<rceil>)"
    and "\<bar>d2i x\<bar> \<le> INT64_MAX"
proof -
  define n where "n = (if 0 \<le> x then \<lfloor>x\<rfloor> else \<lceil>x\<rceil>)"
  have nb: "\<bar>n\<bar> < 9223372036854775808"
  proof (cases "0 \<le> x")
    case True
    then have "0 \<le> \<lfloor>x\<rfloor>" by simp
    moreover have "\<lfloor>x\<rfloor> < 9223372036854775808"
      using assms True by (simp add: floor_less_iff)
    ultimately have "\<bar>\<lfloor>x\<rfloor>\<bar> < 9223372036854775808" by linarith
    then show ?thesis using True by (simp only: n_def if_True)
  next
    case False
    then have "\<lceil>x\<rceil> \<le> 0" by (simp add: ceiling_le_iff)
    moreover have "- 9223372036854775808 < \<lceil>x\<rceil>"
    proof -
      have "- 9223372036854775808 < x" using assms by linarith
      then show ?thesis by simp
    qed
    ultimately have "\<bar>\<lceil>x\<rceil>\<bar> < 9223372036854775808" by linarith
    then show ?thesis using False by (simp only: n_def if_False)
  qed
  have r1: "is_int64 n"
    unfolding is_int64_def INT64_MIN_def INT64_MAX_def using nb by linarith
  have r2: "\<bar>n\<bar> \<le> INT64_MAX"
    unfolding INT64_MAX_def using nb by linarith
  have d: "d2i x = n"
    unfolding d2i_def n_def [symmetric] Let_def using r1 by simp
  show "d2i x = (if 0 \<le> x then \<lfloor>x\<rfloor> else \<lceil>x\<rceil>)" using d by (simp only: n_def)
  show "\<bar>d2i x\<bar> \<le> INT64_MAX" using d r2 by simp
qed

section \<open>Facts about rounding to double precision\<close>

lemma bits_bounds: "0 < n \<Longrightarrow> 2 ^ (bits n - 1) \<le> n \<and> n < 2 ^ bits n"
proof (induction n rule: bits.induct)
  case (1 n)
  show ?case
  proof (cases "n div 2 = 0")
    case True
    with 1(2) have "n = 1" by (simp add: div_eq_0_iff) 
    then show ?thesis by (simp add: bits.simps)
  next
    case False
    then have h: "0 < n div 2" by simp
    from 1(2) have n0: "n \<noteq> 0" by simp
    have ih: "2 ^ (bits (n div 2) - 1) \<le> n div 2 \<and> n div 2 < 2 ^ bits (n div 2)"
      using 1(1) [OF n0 h] .
    have b: "bits n = Suc (bits (n div 2))" using n0 by (subst bits.simps) simp
    have p: "0 < bits (n div 2)" using h by (subst bits.simps) simp
    then obtain k where k: "bits (n div 2) = Suc k" by (cases "bits (n div 2)") simp_all
    have "2 * 2 ^ k \<le> 2 * (n div 2)" using ih k by simp
    also have "\<dots> \<le> n" by simp
    finally have lo: "2 ^ (bits n - 1) \<le> n" by (simp add: b k)
    have "n div 2 + 1 \<le> 2 ^ bits (n div 2)" using ih by simp
    then have "2 * (n div 2) + 2 \<le> 2 * 2 ^ bits (n div 2)" by simp
    moreover have "n < 2 * (n div 2) + 2" by presburger
    ultimately have "n < 2 ^ bits n" by (simp add: b)
    with lo show ?thesis by simp
  qed
qed

lemma bits_pos: "0 < n \<Longrightarrow> 0 < bits n"
  by (subst bits.simps) simp

lemma pow2_powi: "pow2 e = 2 powi e"
  by (simp add: pow2_def power_int_def inverse_eq_divide power_one_over)

lemma pow2_pos: "0 < pow2 e"
  by (simp add: pow2_powi zero_less_power_int)

lemma pow2_add: "pow2 (a + b) = pow2 a * pow2 b"
  by (simp add: pow2_powi power_int_add)

lemma pow2_nat: "pow2 (int k) = 2 ^ k"
  by (simp add: pow2_def)

lemma pow2_Suc: "pow2 (e + 1) = 2 * pow2 e"
  by (simp add: pow2_add) (simp add: pow2_def)

lemma pow2_mono_nat: "pow2 e \<le> pow2 (e + int k)"
proof -
  have "pow2 (e + int k) = pow2 e * 2 ^ k" by (simp add: pow2_add pow2_nat)
  moreover have "(1::real) \<le> 2 ^ k" by simp
  ultimately show ?thesis using pow2_pos [of e] by (simp add: mult_le_cancel_left1)
qed

lemma pow2_mono: "a \<le> b \<Longrightarrow> pow2 a \<le> pow2 b"
  using pow2_mono_nat [of a "nat (b - a)"] by simp

lemma pow2_less_imp: "pow2 a < pow2 b \<Longrightarrow> a < b"
  using pow2_mono [of b a] by (cases "a < b") simp_all

lemma expo_bounds:
  assumes "x \<noteq> 0"
  shows "pow2 (expo x) \<le> \<bar>x\<bar>" and "\<bar>x\<bar> < pow2 (expo x + 1)"
proof -
  have "pow2 (expo x) \<le> \<bar>x\<bar> \<and> \<bar>x\<bar> < pow2 (expo x + 1)"
  proof (cases "1 \<le> \<bar>x\<bar>")
    case True
    define n where "n = nat \<lfloor>\<bar>x\<bar>\<rfloor>"
    have n1: "0 < n" using True by (simp add: n_def)
    have f0: "0 \<le> \<lfloor>\<bar>x\<bar>\<rfloor>" by simp
    have fl: "real n \<le> \<bar>x\<bar>" "\<bar>x\<bar> < real n + 1"
      using f0 by (simp_all add: n_def del: zero_le_floor)
    obtain k where k: "bits n = Suc k" using bits_pos [OF n1] by (cases "bits n") simp_all
    have e: "expo x = int k" using True by (simp add: expo_def n_def [symmetric] k)
    have b: "2 ^ k \<le> n" "n < 2 ^ Suc k" using bits_bounds [OF n1] k by simp_all
    have r1: "(2::real) ^ k \<le> real n"
      using b(1) by (metis of_nat_le_iff of_nat_numeral of_nat_power)
    have lo: "pow2 (int k) \<le> \<bar>x\<bar>" unfolding pow2_nat using r1 fl by linarith
    have "n + 1 \<le> 2 ^ Suc k" using b(2) by simp
    then have "real (n + 1) \<le> 2 ^ Suc k"
      by (metis of_nat_le_iff of_nat_numeral of_nat_power)
    then have r2: "real n + 1 \<le> 2 ^ Suc k" by simp
    have ps: "pow2 (int k + 1) = 2 ^ Suc k" by (simp add: pow2_Suc pow2_nat)
    have hi: "\<bar>x\<bar> < pow2 (int k + 1)" unfolding ps using r2 fl by linarith
    show ?thesis using lo hi by (simp add: e)
  next
    case False
    define y where "y = 1 / \<bar>x\<bar>"
    have ax: "0 < \<bar>x\<bar>" "\<bar>x\<bar> < 1" using assms False by simp_all
    have y1: "1 < y" using ax by (simp add: y_def)
    define n where "n = nat (\<lceil>y\<rceil> - 1)"
    have c2: "2 \<le> \<lceil>y\<rceil>" using y1 by linarith
    have n1: "0 < n" using c2 by (simp add: n_def)
    have rn: "real n = real_of_int \<lceil>y\<rceil> - 1" using c2 by (simp add: n_def)
    have ce: "real n < y" "y \<le> real n + 1"
      unfolding rn by linarith+
    obtain k where k: "bits n = Suc k" using bits_pos [OF n1] by (cases "bits n") simp_all
    have e: "expo x = - int (Suc k)"
      using False by (simp add: expo_def y_def [symmetric] n_def [symmetric] k)
    have b: "2 ^ k \<le> n" "n < 2 ^ Suc k" using bits_bounds [OF n1] k by simp_all
    have r1: "(2::real) ^ k \<le> real n"
      using b(1) by (metis of_nat_le_iff of_nat_numeral of_nat_power)
    have ylo: "2 ^ k < y" using r1 ce by linarith
    have "n + 1 \<le> 2 ^ Suc k" using b(2) by simp
    then have "real (n + 1) \<le> 2 ^ Suc k"
      by (metis of_nat_le_iff of_nat_numeral of_nat_power)
    then have r2: "real n + 1 \<le> 2 ^ Suc k" by simp
    have yhi: "y \<le> 2 ^ Suc k" using r2 ce by linarith
    have xy: "\<bar>x\<bar> = 1 / y" using ax by (simp add: y_def)
    have p1: "pow2 (- int (Suc k)) = 1 / 2 ^ Suc k" by (simp add: pow2_def nat_add_distrib)
    have p2: "pow2 (- int (Suc k) + 1) = 1 / 2 ^ k"
      by (cases k) (simp_all add: pow2_def nat_add_distrib)
    have lo: "1 / 2 ^ Suc k \<le> 1 / y" using yhi y1 by (intro divide_left_mono) simp_all
    have hi: "1 / y < 1 / 2 ^ k" using ylo y1 by (intro divide_strict_left_mono) simp_all
    show ?thesis using lo hi by (simp only: e p1 p2 xy)
  qed
  then show "pow2 (expo x) \<le> \<bar>x\<bar>" and "\<bar>x\<bar> < pow2 (expo x + 1)" by simp_all
qed

lemma expo_unique:
  assumes "pow2 e \<le> \<bar>x\<bar>" and "\<bar>x\<bar> < pow2 (e + 1)"
  shows "expo x = e"
proof -
  have x0: "x \<noteq> 0" using assms(1) pow2_pos [of e] by auto
  note b = expo_bounds [OF x0]
  have "pow2 (expo x) < pow2 (e + 1)" using b(1) assms(2) by linarith
  then have 1: "expo x < e + 1" by (rule pow2_less_imp)
  have "pow2 e < pow2 (expo x + 1)" using b(2) assms(1) by linarith
  then have 2: "e < expo x + 1" by (rule pow2_less_imp)
  show ?thesis using 1 2 by simp
qed

lemma rne_error: "\<bar>real_of_int (rne y) - y\<bar> \<le> 1 / 2"
  unfolding rne_def Let_def by (auto split: if_splits)

lemma rne_near: "real_of_int k - 1 / 2 < y \<Longrightarrow> y < real_of_int k + 1 / 2 \<Longrightarrow> rne y = k"
proof -
  assume a: "real_of_int k - 1 / 2 < y" "y < real_of_int k + 1 / 2"
  have e: "\<bar>real_of_int (rne y) - y\<bar> \<le> 1 / 2" by (rule rne_error)
  have "\<bar>real_of_int (rne y) - real_of_int k\<bar> < 1" using a e by linarith
  then have "\<bar>rne y - k\<bar> < 1" by (metis of_int_diff of_int_abs of_int_less_1_iff)
  then show ?thesis by simp
qed

lemma rne_of_int: "rne (real_of_int k) = k"
  by (rule rne_near) simp_all

lemma rnd_zero: "rnd 0 = 0"
  by (simp add: rnd_def)

lemma rnd_error: "\<bar>rnd x - x\<bar> \<le> \<bar>x\<bar> / 9007199254740992"
proof (cases "x = 0")
  case True
  then show ?thesis by (simp add: rnd_def)
next
  case False
  define e where "e = expo x - 52"
  define m where "m = x / pow2 e"
  have p: "0 < pow2 e" by (rule pow2_pos)
  have x: "x = m * pow2 e" using p by (simp add: m_def)
  have r: "rnd x = of_int (rne m) * pow2 e"
    using False by (simp add: rnd_def Let_def e_def m_def)
  have "rnd x - x = (of_int (rne m) - m) * pow2 e"
    unfolding r by (subst x) (simp add: left_diff_distrib)
  then have "\<bar>rnd x - x\<bar> = \<bar>of_int (rne m) - m\<bar> * pow2 e"
    using p by (simp add: abs_mult)
  also have "\<dots> \<le> 1 / 2 * pow2 e"
    using rne_error [of m] p by (intro mult_right_mono) simp_all
  finally have 1: "\<bar>rnd x - x\<bar> \<le> pow2 e / 2" by simp
  have "pow2 (expo x) = pow2 (e + 52)" by (simp add: e_def)
  also have "\<dots> = pow2 e * 4503599627370496" by (simp add: pow2_add) (simp add: pow2_def)
  finally have "pow2 e * 4503599627370496 \<le> \<bar>x\<bar>" using expo_bounds(1) [OF False] by simp
  then show ?thesis using 1 by simp
qed

lemma rnd_eval:
  assumes "pow2 e * 4503599627370496 \<le> \<bar>x\<bar>" and "\<bar>x\<bar> < pow2 e * 9007199254740992"
  shows "rnd x = of_int (rne (x / pow2 e)) * pow2 e"
proof -
  have a: "pow2 (e + 52) = pow2 e * 4503599627370496"
    by (simp add: pow2_add) (simp add: pow2_def)
  have b: "pow2 (e + 52 + 1) = pow2 e * 9007199254740992"
    by (simp add: pow2_add) (simp add: pow2_def)
  have "expo x = e + 52" using assms by (intro expo_unique) (simp_all only: a b)
  moreover have "x \<noteq> 0" using assms(1) pow2_pos [of e] by auto
  ultimately show ?thesis by (simp add: rnd_def)
qed

lemma rnd_near:
  assumes "pow2 e * 4503599627370496 \<le> \<bar>x\<bar>" and "\<bar>x\<bar> < pow2 e * 9007199254740992"
    and "(real_of_int k - 1 / 2) * pow2 e < x" and "x < (real_of_int k + 1 / 2) * pow2 e"
  shows "rnd x = of_int k * pow2 e"
proof -
  have p: "0 < pow2 e" by (rule pow2_pos)
  have "rne (x / pow2 e) = k"
    using assms(3,4) p by (intro rne_near) (simp_all add: pos_less_divide_eq pos_divide_less_eq)
  then show ?thesis using rnd_eval [OF assms(1,2)] by simp
qed

lemma rnd_exact:
  assumes "pow2 e * 4503599627370496 \<le> \<bar>x\<bar>" and "\<bar>x\<bar> < pow2 e * 9007199254740992"
    and "x = real_of_int k * pow2 e"
  shows "rnd x = x"
proof -
  have p: "0 < pow2 e" by (rule pow2_pos)
  have "x / pow2 e = real_of_int k" using assms(3) p by simp
  then show ?thesis using rnd_eval [OF assms(1,2)] assms(3) by (simp add: rne_of_int)
qed

lemma rnd_int:
  assumes "\<bar>n\<bar> \<le> 9007199254740992"
  shows "rnd (real_of_int n) = real_of_int n"
proof (cases "n = 0")
  case True
  then show ?thesis by (simp add: rnd_def)
next
  case False
  define x where "x = real_of_int n"
  have x0: "x \<noteq> 0" using False by (simp add: x_def)
  define e where "e = expo x - 52"
  have p: "0 < pow2 e" by (rule pow2_pos)
  have lo: "pow2 (e + 52) \<le> \<bar>x\<bar>" using expo_bounds(1) [OF x0] by (simp add: e_def)
  have s: "pow2 (e + 52) = pow2 e * 4503599627370496"
    by (simp add: pow2_add) (simp add: pow2_def)
  have ax: "\<bar>x\<bar> \<le> 9007199254740992" 
  proof -
    have "real_of_int \<bar>n\<bar> \<le> real_of_int 9007199254740992" using assms by (simp only: of_int_le_iff)
    then show ?thesis by (simp add: x_def)
  qed
  have "pow2 e * 4503599627370496 \<le> 9007199254740992" using lo ax by (simp only: s) 
  then have "pow2 e \<le> pow2 1" by (simp add: pow2_def)
  note pe = this
  have e1: "e \<le> 1"
  proof (rule ccontr)
    assume "\<not> e \<le> 1"
    then have "pow2 2 \<le> pow2 e" by (intro pow2_mono) simp
    then show False using \<open>pow2 e \<le> pow2 1\<close> by (simp add: pow2_def)
  qed
  have "\<exists>k. x / pow2 e = real_of_int k"
  proof (cases "e \<le> 0")
    case True
    then have "pow2 e = 1 / 2 ^ nat (- e)" by (cases "e = 0") (simp_all add: pow2_def)
    then have "x / pow2 e = real_of_int (n * 2 ^ nat (- e))" by (simp add: x_def)
    then show ?thesis ..
  next
    case F: False
    with e1 have e: "e = 1" by simp
    have "9007199254740992 \<le> \<bar>x\<bar>" using lo by (simp only: s e) (simp add: pow2_def)
    with ax have "\<bar>x\<bar> = 9007199254740992" by simp
    then have "x = 9007199254740992 \<or> x = - 9007199254740992" by linarith
    then have "x / pow2 e = real_of_int 4503599627370496 \<or> x / pow2 e = real_of_int (- 4503599627370496)"
      by (auto simp: e pow2_def)
    then show ?thesis by blast
  qed
  then obtain k where k: "x / pow2 e = real_of_int k" ..
  have "rnd x = of_int (rne (x / pow2 e)) * pow2 e"
    using x0 by (simp add: rnd_def Let_def e_def)
  also have "\<dots> = real_of_int k * pow2 e" by (simp add: k rne_of_int)
  also have "\<dots> = x" using k p by (simp add: field_simps)
  finally show ?thesis by (simp add: x_def)
qed

lemma rnd_pos: "0 < x \<Longrightarrow> 0 < rnd x"
proof -
  assume x: "0 < x"
  have "\<bar>x\<bar> / 9007199254740992 < x" using x by simp
  then show ?thesis using rnd_error [of x] by linarith
qed

lemma rnd_nonneg: "0 \<le> x \<Longrightarrow> 0 \<le> rnd x"
  using rnd_pos [of x] by (cases "x = 0") (simp_all add: rnd_zero)

lemma rnd_numeral:
  "(numeral k :: int) \<le> 9007199254740992 \<Longrightarrow> rnd (numeral k) = numeral k"
  using rnd_int [of "numeral k"] by simp

lemma rnd_neg_numeral:
  "(numeral k :: int) \<le> 9007199254740992 \<Longrightarrow> rnd (- numeral k) = - numeral k"
  using rnd_int [of "- numeral k"] by simp

lemma rnd_one: "rnd 1 = 1"
  using rnd_int [of 1] by simp

lemma i2d_exact: "\<bar>n\<bar> \<le> 9007199254740992 \<Longrightarrow> i2d n = real_of_int n"
  by (simp add: i2d_def rnd_int)

lemmas rnd_small = rnd_zero rnd_one rnd_numeral rnd_neg_numeral

lemma HZ250Jiffies: "ddiv 1 250 = 1152921504606847 / 288230376151711744"
  unfolding ddiv_def
  using rnd_near [of "- 60" "1 / 250" 4611686018427388] by (simp add: pow2_def)

section \<open>Facts about the example configurations\<close>

lemma timer_of_tics_fields:
  "mHPTics (timer_of_tics n) = n" "mInterrupted (timer_of_tics n) = False"
  "mCancelled (timer_of_tics n) = False" "mNormalized (timer_of_tics n) = False"
  "mSign (timer_of_tics n) = False" "HPTics (timer_of_tics n) = n"
  by (simp_all add: timer_of_tics_def zero_timer_def HighPerTimer_default_def HPTics_def)

lemma tsc_fields:
  "NsecPerTic tsc_statics = 1"
  "HPJiffies tsc_statics = 1152921504606847 / 288230376151711744"
  "UnixZeroShift tsc_statics = 0"
  "HPTimer_MAX tsc_statics = timer_of_tics INT64_MAX"
  "HPTimer_MIN tsc_statics = timer_of_tics INT64_MIN"
  by (simp_all add: tsc_statics_def HZ250Jiffies)

lemma hpet_fields:
  "NsecPerTic hpet_statics = 10"
  "HPJiffies hpet_statics = 1152921504606847 / 288230376151711744"
  "UnixZeroShift hpet_statics = 0"
  "HPTimer_MAX hpet_statics = timer_of_tics 76861433640456465"
  "HPTimer_MIN hpet_statics = timer_of_tics (- 76861433640456465)"
  by (simp_all add: hpet_statics_def HZ250Jiffies)

lemma jiffy_products:
  "dmul (1152921504606847 / 288230376151711744) 1000000000 = 4000000"
  "dmul (1152921504606847 / 288230376151711744) 1000000 = 4000"
proof -
  show "dmul (1152921504606847 / 288230376151711744) 1000000000 = 4000000"
    unfolding dmul_def
    using rnd_near [of "- 31" "1152921504606847 / 288230376151711744 * 1000000000"
        8589934592000000]
    by (simp add: pow2_def)
  show "dmul (1152921504606847 / 288230376151711744) 1000000 = 4000"
    unfolding dmul_def
    using rnd_near [of "- 41" "1152921504606847 / 288230376151711744 * 1000000"
        8796093022208000]
    by (simp add: pow2_def)
qed

lemma BusyNSeconds_tsc: "BusyNSeconds tsc_statics = 4000000"
  by (simp add: BusyNSeconds_def tsc_fields ONE_BILLION_def i2d_exact jiffy_products d2i_def
      is_int64_def INT64_MIN_def INT64_MAX_def)

lemma BusyUSeconds_tsc: "BusyUSeconds tsc_statics = 4000"
  by (simp add: BusyUSeconds_def tsc_fields i2d_exact jiffy_products d2u_def)

section \<open>Setting the tick count: properties\<close>

lemma SetTics_always_returns:
  "SetTics g t tics = Inr (t\<lparr>mHPTics := tics, mNormalized := False\<rparr>)"
  by (auto simp: SetTics_def)

lemma InitMaxMinHPTimer_hpet:
  "InitMaxMinHPTimer (hpet_statics\<lparr>HPTimer_MAX := zero_timer, HPTimer_MIN := zero_timer\<rparr>)
     = Inr hpet_statics"
  by (simp add: InitMaxMinHPTimer_def SetTics_always_returns hpet_statics_def timer_of_tics_def
      tdiv_def INT64_MAX_def INT64_MIN_def Let_def zero_timer_def HighPerTimer_default_def)

text \<open>
  C5. \<open>SetTics\<close> is specified to raise an out-of-range error for a tick count outside
  \<open>[HPTimer_MIN, HPTimer_MAX]\<close> and to leave the receiver unchanged. With the HPET
  bounds in force, the argument \<open>INT64_MAX\<close> lies above \<open>HPTimer_MAX\<close>, yet the
  function returns normally with the receiver's tick count overwritten: the test
  \<open>HPTics <= MAX || HPTics >= MAX\<close> holds for every argument.
\<close>

theorem C5_SetTics_out_of_range_accepted:
  "INT64_MAX > HPTics (HPTimer_MAX hpet_statics) \<and>
   SetTics hpet_statics (timer_of_tics 0) INT64_MAX
     = Inr ((timer_of_tics 0)\<lparr>mHPTics := INT64_MAX, mNormalized := False\<rparr>) \<and>
   mHPTics ((timer_of_tics 0)\<lparr>mHPTics := INT64_MAX, mNormalized := False\<rparr>)
     \<noteq> mHPTics (timer_of_tics 0)"
  by (simp add: SetTics_always_returns hpet_fields timer_of_tics_fields INT64_MAX_def)

section \<open>Reading the HPET main counter: properties\<close>

lemma le_value4_bound: "0 \<le> le_value [a, b, c, d] \<and> le_value [a, b, c, d] < 4294967296"
proof -
  have "uint a < 256" "uint b < 256" "uint c < 256" "uint d < 256"
    "0 \<le> uint a" "0 \<le> uint b" "0 \<le> uint c" "0 \<le> uint d"
    using uint_bounded [of a] uint_bounded [of b] uint_bounded [of c] uint_bounded [of d]
    by simp_all
  then show ?thesis by simp
qed

lemma load_int32_range: "- 2147483648 \<le> load_int32 m a \<and> load_int32 m a < 2147483648"
  using le_value4_bound [of "m a" "m (a + 1)" "m (a + 2)" "m (a + 3)"]
  by (auto simp: load_int32_def Let_def simp del: le_value.simps)

lemma GetHPETTics_low_half:
  "GetHPETTics m = load_int32 m 240 \<and>
   - 2147483648 \<le> GetHPETTics m \<and> GetHPETTics m < 2147483648"
proof -
  have "is_int64 (load_int32 m 240)"
    using load_int32_range [of m 240] by (simp add: is_int64_def INT64_MIN_def INT64_MAX_def)
  then have "GetHPETTics m = load_int32 m 240"
    by (simp add: GetHPETTics_def MainCounterOffset_def s64_u64 s64_id)
  then show ?thesis using load_int32_range [of m 240] by simp
qed

text \<open>
  C1. On a 64-bit target \<open>GetHPETTics\<close> is specified to return the full 64-bit value of
  the main counter register. The code loads through an \<open>int32_t\<close> pointer: when the
  register holds \<open>2^32\<close> the function returns 0.
\<close>

theorem C1_GetHPETTics_drops_high_half:
  "main_counter_register counter_4G = 4294967296 \<and> GetHPETTics counter_4G = 0"
  by (simp add: main_counter_register_def GetHPETTics_def counter_4G_def load_int32_def
      MainCounterOffset_def s64_def u64_def)

section \<open>Arithmetic: properties\<close>

lemma InvertSign_negates:
  assumes "is_int64 (mHPTics t)" and "mHPTics t \<noteq> INT64_MIN"
  shows "InvertSign t = Inr (t\<lparr>mSign := \<not> mSign t, mHPTics := - mHPTics t\<rparr>)"
proof -
  have "is_int64 (- mHPTics t)"
    using assms by (simp add: is_int64_def INT64_MIN_def INT64_MAX_def)
  then show ?thesis using assms(2) by (simp add: InvertSign_def Let_def s64_id)
qed

lemma InvertSign_raises_iff:
  "(\<exists>t'. InvertSign t = Inl (Overflow, t')) = (mHPTics t = INT64_MIN)"
  by (auto simp: InvertSign_def Let_def)

text \<open>
  C9. \<open>InvertSign\<close> is specified to leave the receiver unchanged when it raises the
  out-of-range error. The code assigns \<open>mSign = !mSign\<close> before it tests the tick
  count: on the smallest tick count it throws with the sign member of the receiver
  inverted.
\<close>

theorem C9_InvertSign_error_changes_receiver:
  "InvertSign (timer_of_tics INT64_MIN)
     = Inl (Overflow, (timer_of_tics INT64_MIN)\<lparr>mSign := True\<rparr>) \<and>
   (timer_of_tics INT64_MIN)\<lparr>mSign := True\<rparr> \<noteq> timer_of_tics INT64_MIN"
  by (simp add: InvertSign_def timer_of_tics_def zero_timer_def HighPerTimer_default_def Let_def)

lemma operator_plus_cases:
  assumes a: "is_int64 (HPTics A)" and b: "is_int64 (HPTics B)"
    and mx: "0 \<le> HPTics (HPTimer_MAX g)" "HPTics (HPTimer_MAX g) \<le> INT64_MAX"
    and mn: "INT64_MIN \<le> HPTics (HPTimer_MIN g)" "HPTics (HPTimer_MIN g) < 0"
  shows "operator_plus g u A B =
         (if (HPTics B > 0 \<and> HPTics A + HPTics B \<ge> HPTics (HPTimer_MAX g)) \<or>
             (HPTics B < 0 \<and> HPTics A + HPTics B \<le> HPTics (HPTimer_MIN g)) \<or>
             HPTics A + HPTics B > HPTics (HPTimer_MAX g) \<or>
             HPTics A + HPTics B < HPTics (HPTimer_MIN g)
          then Inl Overflow
          else Inr (u\<lparr>mHPTics := HPTics A + HPTics B, mNormalized := False\<rparr>))"
proof -
  have g1: "HPTics B > 0 \<Longrightarrow> s64 (HPTics (HPTimer_MAX g) - HPTics B) = HPTics (HPTimer_MAX g) - HPTics B"
    using b mx by (intro s64_id) (simp add: is_int64_def INT64_MIN_def INT64_MAX_def)
  have g2: "HPTics B < 0 \<Longrightarrow> s64 (HPTics (HPTimer_MIN g) - HPTics B) = HPTics (HPTimer_MIN g) - HPTics B"
    using b mn by (intro s64_id) (simp add: is_int64_def INT64_MIN_def INT64_MAX_def)
  show ?thesis
  proof (cases "(HPTics B > 0 \<and> HPTics A + HPTics B \<ge> HPTics (HPTimer_MAX g)) \<or>
             (HPTics B < 0 \<and> HPTics A + HPTics B \<le> HPTics (HPTimer_MIN g))")
    case True
    then show ?thesis using g1 g2 by (auto simp: operator_plus_def)
  next
    case False
    then have "is_int64 (HPTics A + HPTics B)"
      using a b mx mn by (auto simp: is_int64_def INT64_MIN_def INT64_MAX_def)
    then have s: "s64 (HPTics A + HPTics B) = HPTics A + HPTics B" by (rule s64_id)
    show ?thesis using False g1 g2
      by (auto simp: operator_plus_def s HighPerTimer_tics_def)
  qed
qed

lemma TicAdd_reaches_MAX:
  "TicAdd tsc_statics (timer_of_tics (INT64_MAX - 1)) 1 = Inr (timer_of_tics INT64_MAX)"
  by (simp add: TicAdd_def tsc_statics_def timer_of_tics_def HPTics_def s64_def u64_def
      INT64_MAX_def zero_timer_def HighPerTimer_default_def)

lemma HighPerTimer_tics_at_MAX:
  "HighPerTimer_tics tsc_statics zero_timer INT64_MAX False = Inr (timer_of_tics INT64_MAX)"
  by (simp add: HighPerTimer_tics_def tsc_statics_def timer_of_tics_def HPTics_def
      INT64_MAX_def INT64_MIN_def zero_timer_def HighPerTimer_default_def)

text \<open>
  C4. \<open>operator+\<close> is specified to return the sum of the tick counts whenever the sum
  lies within \<open>[HPTimer_MIN, HPTimer_MAX]\<close>. With the full 64-bit range as bounds, the
  sum of \<open>INT64_MAX - 1\<close> and 1 is \<open>HPTimer_MAX\<close> itself, a value the constructor
  accepts and \<open>TicAdd\<close> reaches, and \<open>operator+\<close> throws: its guard compares with
  \<open><=\<close>.
\<close>

theorem C4_operator_plus_rejects_sum_at_MAX:
  "HPTics (timer_of_tics (INT64_MAX - 1)) + HPTics (timer_of_tics 1)
     = HPTics (HPTimer_MAX tsc_statics) \<and>
   HPTics (HPTimer_MIN tsc_statics) \<le> HPTics (HPTimer_MAX tsc_statics) \<and>
   operator_plus tsc_statics zero_timer (timer_of_tics (INT64_MAX - 1)) (timer_of_tics 1)
     = Inl Overflow"
  by (simp add: operator_plus_def tsc_fields timer_of_tics_fields s64_def INT64_MAX_def
      INT64_MIN_def)

section \<open>Interruptible sleep: properties\<close>

lemma Now_now_tics:
  "Now g u x = map_sum id (\<lambda>n. u\<lparr>mHPTics := n, mNormalized := False\<rparr>) (now_tics g x)"
  by (simp add: now_tics_def Now_def HighPerTimer_tics_def Let_def HPTics_def split: sum.splits)

lemma interfere_early_flag: "mInterrupted (interfere True t) = True"
  by (simp add: interfere_def Interrupt_def)

lemma coarse_wait_quiet:
  "\<not> intr_wait env \<Longrightarrow> \<not> mInterrupted t \<Longrightarrow> coarse_wait env t d = (t, [LockMutex, WaitFor d])"
  by (simp add: coarse_wait_def interfere_def)

lemma spin_quiet:
  "\<not> mInterrupted t \<Longrightarrow> list_all (\<lambda>r. \<not> snd r) rs \<Longrightarrow> spin t T c rs = (t', w)
     \<Longrightarrow> w \<noteq> InterruptedEarly"
  by (induction rs arbitrary: t c) (auto simp: interfere_def Let_def split: if_splits)

lemma spin_now_quiet:
  "\<not> mInterrupted t \<Longrightarrow> list_all (\<lambda>r. \<not> snd r) rs \<Longrightarrow> spin_now g t T c rs = (t', w)
     \<Longrightarrow> w \<noteq> InterruptedEarly"
  by (induction rs arbitrary: t c)
    (auto simp: interfere_def Let_def split: sum.splits if_splits)

lemma TicsSleep_waits_iff:
  "(\<exists>d. WaitFor d \<in> set (events (TicsSleep g t n env))) =
   (mHPTics t > 0 \<and> dmul (i2d n) (NsecPerTic g) \<ge> i2d (BusyNSeconds g))"
  by (auto simp: events_def TicsSleep_def Let_def coarse_wait_def interfere_def Interrupt_def
      split: prod.splits if_splits)

text \<open>
  C6. \<open>TicsSleep\<close> is specified to enter the coarse wait exactly when the requested
  interval is at least one kernel tick, whatever the receiver holds. At one tick per
  nanosecond and a kernel tick of 4 ms, a request of \<open>10^10\<close> ticks on a receiver with
  tick count 0 performs no wait, and the same request on a receiver with tick count 1
  does: the guard tests \<open>mHPTics > 0\<close>.
\<close>

theorem C6_TicsSleep_guard_reads_receiver:
  "real_of_int 10000000000 * NsecPerTic tsc_statics \<ge> HPJiffies tsc_statics * 1000000000 \<and>
   events (TicsSleep tsc_statics (timer_of_tics 0) 10000000000 calm_env)
     = [WriteCancelled False, WriteInterrupted False] \<and>
   events (TicsSleep tsc_statics (timer_of_tics 1) 10000000000 calm_env)
     = [WriteCancelled False, WriteInterrupted False, LockMutex, WaitFor 9996000]"
  by (simp add: events_def TicsSleep_def BusyNSeconds_tsc tsc_fields timer_of_tics_fields
      calm_env_def interfere_def Let_def s64_def u64_def coarse_wait_def d2i_def is_int64_def
      INT64_MIN_def INT64_MAX_def tdiv_def tics_to_nsecs_def dmul_def i2d_exact rnd_small)

lemma USecSleep_early_example:
  "events (USecSleep tsc_statics (timer_of_tics 0) 5000000 early_env)
     = [WriteCancelled False, WriteInterrupted False, LockMutex, WriteCancelled True,
        WaitFor 4996000]"
  by (simp add: events_def USecSleep_def BusyUSeconds_tsc tsc_fields timer_of_tics_fields
      calm_env_def early_env_def interfere_def Interrupt_def Let_def s64_def u64_def
      coarse_wait_def)

text \<open>
  C7, as stated: when the interrupted flag is found set under the mutex, the sleep marks
  \<open>cancelled\<close> and skips the timed wait. Counterexample: \<open>USecSleep\<close> for five seconds,
  with \<open>Interrupt\<close> called right after the flags were cleared, marks \<open>cancelled\<close> and
  then waits on the condition variable for 4996000 microseconds.
\<close>

theorem C7_wait_not_skipped:
  "intr_early early_env \<and>
   events (USecSleep tsc_statics (timer_of_tics 0) 5000000 early_env)
     = [WriteCancelled False, WriteInterrupted False, LockMutex, WriteCancelled True,
        WaitFor 4996000] \<and>
   WaitFor 4996000 \<in> set (events (USecSleep tsc_statics (timer_of_tics 0) 5000000 early_env))"
  by (simp add: USecSleep_early_example) (simp add: early_env_def)

lemma tics_to_nsecs_tsc:
  assumes "\<bar>n\<bar> \<le> 9007199254740992"
  shows "tics_to_nsecs tsc_statics n = n"
proof -
  have "is_int64 n" using assms by (auto simp: is_int64_def INT64_MIN_def INT64_MAX_def)
  then show ?thesis
    using assms by (simp add: tics_to_nsecs_def dmul_def tsc_fields i2d_exact rnd_int d2i_def)
qed

lemma now_tics_tsc: "is_int64 x \<Longrightarrow> now_tics tsc_statics x = Inr x"
  by (simp add: now_tics_def Now_def HighPerTimer_tics_def tsc_fields timer_of_tics_fields
      s64_id is_int64_def INT64_MIN_def INT64_MAX_def HPTics_def)

text \<open>
  C7, amended: in every sleep entry point, when the interval is long enough for the coarse
  wait and the interrupted flag is found set under the mutex, the sleep marks
  \<open>cancelled\<close> and then still performs the timed wait on the condition variable, before
  the busy-wait loop. The wait lasts the interval less one kernel tick, in whole
  microseconds: \<open>USeconds - BusyUSeconds\<close> in \<open>USecSleep\<close>,
  \<open>(NSeconds - BusyNSeconds) / 1000\<close> in \<open>NSecSleep\<close>, and
  \<open>(n - BusyNSeconds) / 1000\<close> in the others, where \<open>n\<close> is the nanosecond value of
  the requested ticks (\<open>TicsSleep\<close>), of the receiver's ticks (\<open>Sleep\<close>), or of the
  ticks from now to the deadline (\<open>SleepTo\<close>, \<open>SleepToThis\<close>).
\<close>

theorem C7_cancel_mark_then_wait:
  "(intr_early env \<and> BusyUSeconds g \<le> USecs \<longrightarrow>
      events (USecSleep g t USecs env)
        = [WriteCancelled False, WriteInterrupted False, LockMutex, WriteCancelled True,
           WaitFor (s64 (u64 (USecs - BusyUSeconds g)))]) \<and>
   (intr_early env \<and> u64 (BusyNSeconds g) \<le> NSecs \<longrightarrow>
      events (NSecSleep g t NSecs env)
        = [WriteCancelled False, WriteInterrupted False, LockMutex, WriteCancelled True,
           WaitFor (s64 (u64 (NSecs - u64 (BusyNSeconds g)) div 1000))]) \<and>
   (intr_early env \<and> 0 < mHPTics t \<and>
    i2d (BusyNSeconds g) \<le> dmul (i2d Tics) (NsecPerTic g) \<longrightarrow>
      events (TicsSleep g t Tics env)
        = [WriteCancelled False, WriteInterrupted False, LockMutex, WriteCancelled True,
           WaitFor (tdiv (s64 (tics_to_nsecs g Tics - BusyNSeconds g)) 1000)]) \<and>
   (intr_early env \<and> 0 < tics_to_nsecs g (s64 (WakeHPTimer - first_tics env)) \<and>
    BusyNSeconds g \<le> tics_to_nsecs g (s64 (WakeHPTimer - first_tics env)) \<longrightarrow>
      events (SleepTo g t WakeHPTimer env)
        = [WriteCancelled False, WriteInterrupted False, LockMutex, WriteCancelled True,
           WaitFor (tdiv (s64 (tics_to_nsecs g (s64 (WakeHPTimer - first_tics env))
                               - BusyNSeconds g)) 1000)]) \<and>
   (intr_early env \<and> now_tics g (first_tics env) = Inr now \<and>
    0 < tics_to_nsecs g (s64 (mHPTics WaitTo - now)) \<and>
    BusyNSeconds g \<le> tics_to_nsecs g (s64 (mHPTics WaitTo - now)) \<longrightarrow>
      events (SleepTo_timer g t WaitTo env)
        = [WriteCancelled False, WriteInterrupted False, LockMutex, WriteCancelled True,
           WaitFor (tdiv (s64 (tics_to_nsecs g (s64 (mHPTics WaitTo - now))
                               - BusyNSeconds g)) 1000)]) \<and>
   (intr_early env \<and> now_tics g (first_tics env) = Inr now \<and>
    0 < tics_to_nsecs g (s64 (mHPTics t - now)) \<and>
    BusyNSeconds g \<le> tics_to_nsecs g (s64 (mHPTics t - now)) \<longrightarrow>
      events (SleepToThis g t env)
        = [WriteCancelled False, WriteInterrupted False, LockMutex, WriteCancelled True,
           WaitFor (tdiv (s64 (tics_to_nsecs g (s64 (mHPTics t - now))
                               - BusyNSeconds g)) 1000)]) \<and>
   (intr_early env \<and> 0 < mHPTics t \<and>
    i2d (BusyNSeconds g) \<le> dmul (i2d (mHPTics t)) (NsecPerTic g) \<longrightarrow>
      events (Sleep g t env)
        = [WriteCancelled False, WriteInterrupted False, LockMutex, WriteCancelled True,
           WaitFor (tdiv (s64 (tics_to_nsecs g (mHPTics t) - BusyNSeconds g)) 1000)])"
  (is "?U \<and> ?N \<and> ?T \<and> ?W \<and> ?H \<and> ?S \<and> ?R")
proof -
  have U: ?U
    by (simp add: events_def USecSleep_def Let_def coarse_wait_def interfere_early_flag
        split: prod.splits)
  have N: ?N
    by (simp add: events_def NSecSleep_def Let_def coarse_wait_def interfere_early_flag
        split: prod.splits)
  have T: ?T
    by (simp add: events_def TicsSleep_def Let_def coarse_wait_def interfere_def
        Interrupt_def split: prod.splits)
  have W: ?W
    by (simp add: events_def SleepTo_def Let_def coarse_wait_def interfere_early_flag
        split: prod.splits)
  have H: ?H
    by (simp add: events_def SleepTo_timer_def sleep_until_def Now_now_tics HPTics_def
        Let_def coarse_wait_def interfere_early_flag split: prod.splits)
  have S: ?S
    by (simp add: events_def SleepToThis_def sleep_until_def Now_now_tics HPTics_def
        Let_def coarse_wait_def interfere_early_flag split: prod.splits)
  have R: ?R
    by (simp add: events_def Sleep_def Let_def coarse_wait_def interfere_def
        Interrupt_def split: prod.splits)
  show ?thesis using U N T W H S R by blast
qed

theorem C7_cancel_mark_then_wait_witness:
  "events (USecSleep tsc_statics (timer_of_tics 0) 5000000 early_env)
     = [WriteCancelled False, WriteInterrupted False, LockMutex, WriteCancelled True,
        WaitFor 4996000] \<and>
   events (NSecSleep tsc_statics (timer_of_tics 0) 5000000000 early_env)
     = [WriteCancelled False, WriteInterrupted False, LockMutex, WriteCancelled True,
        WaitFor 4996000] \<and>
   events (TicsSleep tsc_statics (timer_of_tics 1) 10000000000 early_env)
     = [WriteCancelled False, WriteInterrupted False, LockMutex, WriteCancelled True,
        WaitFor 9996000] \<and>
   events (SleepTo tsc_statics (timer_of_tics 0) 10000001000 early_env)
     = [WriteCancelled False, WriteInterrupted False, LockMutex, WriteCancelled True,
        WaitFor 9996000] \<and>
   events (SleepTo_timer tsc_statics (timer_of_tics 0) (timer_of_tics 10000001000) early_env)
     = [WriteCancelled False, WriteInterrupted False, LockMutex, WriteCancelled True,
        WaitFor 9996000] \<and>
   events (SleepToThis tsc_statics (timer_of_tics 10000001000) early_env)
     = [WriteCancelled False, WriteInterrupted False, LockMutex, WriteCancelled True,
        WaitFor 9996000] \<and>
   events (Sleep tsc_statics (timer_of_tics 10000000000) early_env)
     = [WriteCancelled False, WriteInterrupted False, LockMutex, WriteCancelled True,
        WaitFor 9996000]"
proof -
  have e: "intr_early early_env" "first_tics early_env = 1000"
    by (simp_all add: early_env_def calm_env_def)
  have n: "now_tics tsc_statics 1000 = Inr 1000"
    by (rule now_tics_tsc) (simp add: is_int64_def INT64_MIN_def INT64_MAX_def)
  have b: "i2d 4000000 = 4000000" "dmul (i2d 10000000000) 1 = 10000000000"
    by (simp_all add: i2d_exact dmul_def rnd_small)
  have k: "tics_to_nsecs tsc_statics 10000000000 = 10000000000"
    by (rule tics_to_nsecs_tsc) simp
  note th = C7_cancel_mark_then_wait [where g = tsc_statics and env = early_env]
  have U: "events (USecSleep tsc_statics (timer_of_tics 0) 5000000 early_env)
     = [WriteCancelled False, WriteInterrupted False, LockMutex, WriteCancelled True,
        WaitFor 4996000]"
    using th [where t = "timer_of_tics 0" and USecs = 5000000, THEN conjunct1] e
    by (simp add: BusyUSeconds_tsc s64_def u64_def)
  have N: "events (NSecSleep tsc_statics (timer_of_tics 0) 5000000000 early_env)
     = [WriteCancelled False, WriteInterrupted False, LockMutex, WriteCancelled True,
        WaitFor 4996000]"
    using th [where t = "timer_of_tics 0" and NSecs = 5000000000, THEN conjunct2, THEN conjunct1] e
    by (simp add: BusyNSeconds_tsc s64_def u64_def)
  have T: "events (TicsSleep tsc_statics (timer_of_tics 1) 10000000000 early_env)
     = [WriteCancelled False, WriteInterrupted False, LockMutex, WriteCancelled True,
        WaitFor 9996000]"
    using th [where t = "timer_of_tics 1" and Tics = 10000000000, THEN conjunct2, THEN conjunct2,
        THEN conjunct1] e b k
    by (simp add: BusyNSeconds_tsc tsc_fields timer_of_tics_fields s64_def tdiv_def)
  have W: "events (SleepTo tsc_statics (timer_of_tics 0) 10000001000 early_env)
     = [WriteCancelled False, WriteInterrupted False, LockMutex, WriteCancelled True,
        WaitFor 9996000]"
    using th [where t = "timer_of_tics 0" and WakeHPTimer = 10000001000, THEN conjunct2,
        THEN conjunct2, THEN conjunct2, THEN conjunct1] e k
    by (simp add: BusyNSeconds_tsc s64_def tdiv_def)
  have H: "events (SleepTo_timer tsc_statics (timer_of_tics 0) (timer_of_tics 10000001000)
                     early_env)
     = [WriteCancelled False, WriteInterrupted False, LockMutex, WriteCancelled True,
        WaitFor 9996000]"
    using th [where t = "timer_of_tics 0" and WaitTo = "timer_of_tics 10000001000"
        and now = 1000, THEN conjunct2, THEN conjunct2, THEN conjunct2, THEN conjunct2,
        THEN conjunct1] e n k
    by (simp add: BusyNSeconds_tsc timer_of_tics_fields s64_def tdiv_def)
  have S: "events (SleepToThis tsc_statics (timer_of_tics 10000001000) early_env)
     = [WriteCancelled False, WriteInterrupted False, LockMutex, WriteCancelled True,
        WaitFor 9996000]"
    using th [where t = "timer_of_tics 10000001000" and now = 1000, THEN conjunct2,
        THEN conjunct2, THEN conjunct2, THEN conjunct2, THEN conjunct2, THEN conjunct1] e n k
    by (simp add: BusyNSeconds_tsc timer_of_tics_fields s64_def tdiv_def)
  have R: "events (Sleep tsc_statics (timer_of_tics 10000000000) early_env)
     = [WriteCancelled False, WriteInterrupted False, LockMutex, WriteCancelled True,
        WaitFor 9996000]"
    using th [where t = "timer_of_tics 10000000000", THEN conjunct2, THEN conjunct2,
        THEN conjunct2, THEN conjunct2, THEN conjunct2, THEN conjunct2] e b k
    by (simp add: BusyNSeconds_tsc tsc_fields timer_of_tics_fields s64_def tdiv_def)
  show ?thesis using U N T W H S R by blast
qed

lemma spin_calm:
  "\<not> mInterrupted t \<Longrightarrow> list_all (\<lambda>r. \<not> snd r) rs \<Longrightarrow>
   fst (spin t T c rs) = t \<and> snd (spin t T c rs) \<noteq> InterruptedEarly"
  by (induction rs arbitrary: c) (auto simp: interfere_def Let_def split: if_splits)

lemma spin_now_calm:
  "\<not> mInterrupted t \<Longrightarrow> list_all (\<lambda>r. \<not> snd r) rs \<Longrightarrow>
   fst (spin_now g t T c rs) = t \<and> snd (spin_now g t T c rs) \<noteq> InterruptedEarly"
  by (induction rs arbitrary: c)
    (auto simp: interfere_def Let_def split: sum.splits if_splits)

lemma now_tics_error: "now_tics g x = Inl e \<Longrightarrow> e = Overflow"
  by (auto simp: now_tics_def Now_def HighPerTimer_tics_def Let_def split: if_splits)

lemma sleep_until_throws:
  assumes "isl (now_tics g (first_tics env))"
  shows "sleep_until g t D env = (t\<lparr>mCancelled := False\<rparr>, [WriteCancelled False], Threw Overflow)"
proof -
  obtain e where e: "now_tics g (first_tics env) = Inl e"
    using assms by (cases "now_tics g (first_tics env)") simp_all
  then have "e = Overflow" by (rule now_tics_error)
  with e show ?thesis by (simp add: sleep_until_def Now_now_tics Let_def)
qed

lemma sleep_until_returns:
  assumes "\<not> isl (now_tics g (first_tics env))"
  shows "take 2 (events (sleep_until g t D env)) = [WriteCancelled False, WriteInterrupted False]"
    and "sleep_until g (t\<lparr>mInterrupted := i, mCancelled := c\<rparr>) D env = sleep_until g t D env"
    and "quiet env \<Longrightarrow>
         fst (sleep_until g t D env) = t\<lparr>mCancelled := False, mInterrupted := False\<rparr> \<and>
         wake_of (sleep_until g t D env) \<noteq> InterruptedEarly \<and>
         WriteCancelled True \<notin> set (events (sleep_until g t D env))"
proof -
  obtain x where x: "now_tics g (first_tics env) = Inr x"
    using assms by (cases "now_tics g (first_tics env)") simp_all
  show "take 2 (events (sleep_until g t D env)) = [WriteCancelled False, WriteInterrupted False]"
    using x
    by (simp add: sleep_until_def Now_now_tics Let_def events_def case_prod_beta HPTics_def)
  show "sleep_until g (t\<lparr>mInterrupted := i, mCancelled := c\<rparr>) D env = sleep_until g t D env"
    using x by (simp add: sleep_until_def Now_now_tics Let_def HPTics_def)
  show "fst (sleep_until g t D env) = t\<lparr>mCancelled := False, mInterrupted := False\<rparr> \<and>
        wake_of (sleep_until g t D env) \<noteq> InterruptedEarly \<and>
        WriteCancelled True \<notin> set (events (sleep_until g t D env))"
    if "quiet env"
  proof -
    have q: "\<not> intr_early env" "\<not> intr_wait env" "list_all (\<lambda>r. \<not> snd r) (spin_reads env)"
      using that by (simp_all add: quiet_def)
    note sp = spin_now_calm [where t = "t\<lparr>mCancelled := False, mInterrupted := False\<rparr>"
        and rs = "spin_reads env", OF _ q(3)]
    show ?thesis
      using x q
      by (simp add: sleep_until_def Now_now_tics Let_def events_def wake_of_def case_prod_beta
          interfere_def coarse_wait_def sp HPTics_def)
  qed
qed

lemma simple_sleeps_flags:
  "USecSleep g (t\<lparr>mInterrupted := i, mCancelled := c\<rparr>) n env = USecSleep g t n env"
  "NSecSleep g (t\<lparr>mInterrupted := i, mCancelled := c\<rparr>) n env = NSecSleep g t n env"
  "TicsSleep g (t\<lparr>mInterrupted := i, mCancelled := c\<rparr>) n env = TicsSleep g t n env"
  "SleepTo g (t\<lparr>mInterrupted := i, mCancelled := c\<rparr>) n env = SleepTo g t n env"
  "Sleep g (t\<lparr>mInterrupted := i, mCancelled := c\<rparr>) env = Sleep g t env"
  by (simp_all add: USecSleep_def NSecSleep_def TicsSleep_def SleepTo_def Sleep_def)

lemma simple_sleeps_order:
  "take 2 (events (USecSleep g t n env)) = [WriteCancelled False, WriteInterrupted False]"
  "take 2 (events (NSecSleep g t n env)) = [WriteCancelled False, WriteInterrupted False]"
  "take 2 (events (TicsSleep g t n env)) = [WriteCancelled False, WriteInterrupted False]"
  "take 2 (events (SleepTo g t n env)) = [WriteCancelled False, WriteInterrupted False]"
  "take 2 (events (Sleep g t env)) = [WriteCancelled False, WriteInterrupted False]"
  by (simp_all add: USecSleep_def NSecSleep_def TicsSleep_def SleepTo_def Sleep_def events_def
      Let_def case_prod_beta)

lemma simple_sleeps_quiet:
  assumes "quiet env"
  shows "fst (USecSleep g t n env) = t\<lparr>mCancelled := False, mInterrupted := False\<rparr> \<and>
         wake_of (USecSleep g t n env) \<noteq> InterruptedEarly \<and>
         WriteCancelled True \<notin> set (events (USecSleep g t n env))"
    and "fst (NSecSleep g t n env) = t\<lparr>mCancelled := False, mInterrupted := False\<rparr> \<and>
         wake_of (NSecSleep g t n env) \<noteq> InterruptedEarly \<and>
         WriteCancelled True \<notin> set (events (NSecSleep g t n env))"
    and "fst (TicsSleep g t n env) = t\<lparr>mCancelled := False, mInterrupted := False\<rparr> \<and>
         wake_of (TicsSleep g t n env) \<noteq> InterruptedEarly \<and>
         WriteCancelled True \<notin> set (events (TicsSleep g t n env))"
    and "fst (SleepTo g t n env) = t\<lparr>mCancelled := False, mInterrupted := False\<rparr> \<and>
         wake_of (SleepTo g t n env) \<noteq> InterruptedEarly \<and>
         WriteCancelled True \<notin> set (events (SleepTo g t n env))"
    and "fst (Sleep g t env) = t\<lparr>mCancelled := False, mInterrupted := False\<rparr> \<and>
         wake_of (Sleep g t env) \<noteq> InterruptedEarly \<and>
         WriteCancelled True \<notin> set (events (Sleep g t env))"
proof -
  have q: "\<not> intr_early env" "\<not> intr_wait env" "list_all (\<lambda>r. \<not> snd r) (spin_reads env)"
    using assms by (simp_all add: quiet_def)
  note sp = spin_calm [where t = "t\<lparr>mCancelled := False, mInterrupted := False\<rparr>"
      and rs = "spin_reads env", OF _ q(3)]
  show "fst (USecSleep g t n env) = t\<lparr>mCancelled := False, mInterrupted := False\<rparr> \<and>
         wake_of (USecSleep g t n env) \<noteq> InterruptedEarly \<and>
         WriteCancelled True \<notin> set (events (USecSleep g t n env))"
    using q by (simp add: USecSleep_def Let_def events_def wake_of_def case_prod_beta
        interfere_def coarse_wait_def sp)
  show "fst (NSecSleep g t n env) = t\<lparr>mCancelled := False, mInterrupted := False\<rparr> \<and>
         wake_of (NSecSleep g t n env) \<noteq> InterruptedEarly \<and>
         WriteCancelled True \<notin> set (events (NSecSleep g t n env))"
    using q by (simp add: NSecSleep_def Let_def events_def wake_of_def case_prod_beta
        interfere_def coarse_wait_def sp)
  show "fst (TicsSleep g t n env) = t\<lparr>mCancelled := False, mInterrupted := False\<rparr> \<and>
         wake_of (TicsSleep g t n env) \<noteq> InterruptedEarly \<and>
         WriteCancelled True \<notin> set (events (TicsSleep g t n env))"
    using q by (simp add: TicsSleep_def Let_def events_def wake_of_def case_prod_beta
        interfere_def coarse_wait_def sp)
  show "fst (SleepTo g t n env) = t\<lparr>mCancelled := False, mInterrupted := False\<rparr> \<and>
         wake_of (SleepTo g t n env) \<noteq> InterruptedEarly \<and>
         WriteCancelled True \<notin> set (events (SleepTo g t n env))"
    using q by (simp add: SleepTo_def Let_def events_def wake_of_def case_prod_beta
        interfere_def coarse_wait_def sp)
  show "fst (Sleep g t env) = t\<lparr>mCancelled := False, mInterrupted := False\<rparr> \<and>
         wake_of (Sleep g t env) \<noteq> InterruptedEarly \<and>
         WriteCancelled True \<notin> set (events (Sleep g t env))"
    using q by (simp add: Sleep_def Let_def events_def wake_of_def case_prod_beta
        interfere_def coarse_wait_def sp)
qed

lemma run_sleep_first_event:
  "take 1 (events (run_sleep g t call env)) = [WriteCancelled False]"
proof (cases call)
  case (Call_SleepTo_timer w)
  then show ?thesis
    by (simp add: SleepTo_timer_def sleep_until_def events_def Let_def case_prod_beta
        split: sum.splits)
next
  case Call_SleepToThis
  then show ?thesis
    by (simp add: SleepToThis_def sleep_until_def events_def Let_def case_prod_beta
        split: sum.splits)
qed (simp_all add: USecSleep_def NSecSleep_def TicsSleep_def SleepTo_def Sleep_def events_def
      Let_def case_prod_beta)

lemma SleepToThis_today:
  "SleepToThis hpet_today ((timer_of_tics 5)\<lparr>mInterrupted := True\<rparr>) calm_env
     = ((timer_of_tics 5)\<lparr>mInterrupted := True, mCancelled := False\<rparr>,
        [WriteCancelled False], Threw Overflow)"
  by (simp add: SleepToThis_def sleep_until_def Now_def HighPerTimer_tics_def hpet_today_def
      hpet_fields timer_of_tics_fields calm_env_def s64_def Let_def)

text \<open>
  C10, as stated: every sleep entry point unconditionally sets the cancelled flag and
  then the interrupted flag to false, so that a request recorded before the sleep is
  discarded. Counterexample: with a tick of 10 ns the largest timer value lies in the
  year 1994, so at a present date the constructor called by \<open>Now()\<close> throws.
  \<open>SleepToThis\<close> calls \<open>Now()\<close> between the two assignments: it has then set the
  cancelled flag only, and ends with the interrupted flag of the receiver still set.
\<close>

theorem C10_interrupt_kept_when_Now_throws:
  "HPTics (HPTimer_MAX hpet_today) - UnixZeroShift hpet_today < first_tics calm_env \<and>
   SleepToThis hpet_today ((timer_of_tics 5)\<lparr>mInterrupted := True\<rparr>) calm_env
     = ((timer_of_tics 5)\<lparr>mInterrupted := True, mCancelled := False\<rparr>,
        [WriteCancelled False], Threw Overflow) \<and>
   mInterrupted (fst (SleepToThis hpet_today ((timer_of_tics 5)\<lparr>mInterrupted := True\<rparr>)
                        calm_env))"
  by (simp add: SleepToThis_today)
    (simp add: hpet_today_def hpet_fields timer_of_tics_fields calm_env_def)

text \<open>
  C10, amended. Every sleep entry point first sets the cancelled flag to false. Unless
  the first \<open>Now()\<close> of \<open>SleepTo\<close> with a timer argument or of \<open>SleepToThis\<close>
  throws, it then sets the interrupted flag to false, before any wait, and what the sleep
  returns (receiver, events and outcome) does not depend on the two flags at entry: a
  request recorded before the sleep is discarded. While no other thread calls
  \<open>Interrupt\<close> during the sleep, it returns the receiver with both flags false and
  otherwise unchanged, does not mark itself cancelled and does not return early. When
  that first \<open>Now()\<close> throws, the sleep ends with the out-of-range error before any
  wait, with only the cancelled flag set to false.
\<close>

theorem C10_sleep_discards_pending_interrupt:
  "take 1 (events (run_sleep g t call env)) = [WriteCancelled False] \<and>
   (\<not> first_now_throws g call env \<longrightarrow>
      take 2 (events (run_sleep g t call env))
        = [WriteCancelled False, WriteInterrupted False] \<and>
      run_sleep g (t\<lparr>mInterrupted := i, mCancelled := c\<rparr>) call env = run_sleep g t call env \<and>
      (quiet env \<longrightarrow>
         fst (run_sleep g t call env) = t\<lparr>mCancelled := False, mInterrupted := False\<rparr> \<and>
         wake_of (run_sleep g t call env) \<noteq> InterruptedEarly \<and>
         WriteCancelled True \<notin> set (events (run_sleep g t call env)))) \<and>
   (first_now_throws g call env \<longrightarrow>
      run_sleep g t call env
        = (t\<lparr>mCancelled := False\<rparr>, [WriteCancelled False], Threw Overflow))"
proof (cases call)
  case (Call_USecSleep n)
  then show ?thesis
    using simple_sleeps_quiet(1) [where env = env and g = g and t = t and n = n] run_sleep_first_event [of g t call env]
    by (simp add: first_now_throws_def simple_sleeps_flags simple_sleeps_order)
next
  case (Call_NSecSleep n)
  then show ?thesis
    using simple_sleeps_quiet(2) [where env = env and g = g and t = t and n = n] run_sleep_first_event [of g t call env]
    by (simp add: first_now_throws_def simple_sleeps_flags simple_sleeps_order)
next
  case (Call_TicsSleep n)
  then show ?thesis
    using simple_sleeps_quiet(3) [where env = env and g = g and t = t and n = n] run_sleep_first_event [of g t call env]
    by (simp add: first_now_throws_def simple_sleeps_flags simple_sleeps_order)
next
  case (Call_SleepTo n)
  then show ?thesis
    using simple_sleeps_quiet(4) [where env = env and g = g and t = t and n = n] run_sleep_first_event [of g t call env]
    by (simp add: first_now_throws_def simple_sleeps_flags simple_sleeps_order)
next
  case (Call_SleepTo_timer w)
  show ?thesis
  proof (cases "isl (now_tics g (first_tics env))")
    case True
    then show ?thesis
      using Call_SleepTo_timer run_sleep_first_event [of g t call env]
      by (simp add: first_now_throws_def SleepTo_timer_def sleep_until_throws)
  next
    case False
    note r = sleep_until_returns(1) [OF False, where t = t and D = "mHPTics w"]
      sleep_until_returns(2) [OF False, where t = t and D = "mHPTics w" and i = i and c = c]
      sleep_until_returns(3) [OF False, where t = t and D = "mHPTics w"]
    show ?thesis
      using Call_SleepTo_timer False run_sleep_first_event [of g t call env] r(1) r(2) r(3)
      by (simp add: first_now_throws_def SleepTo_timer_def)
  qed
next
  case Call_SleepToThis
  show ?thesis
  proof (cases "isl (now_tics g (first_tics env))")
    case True
    then show ?thesis
      using Call_SleepToThis run_sleep_first_event [of g t call env]
      by (simp add: first_now_throws_def SleepToThis_def sleep_until_throws)
  next
    case False
    note r = sleep_until_returns(1) [OF False, where t = t and D = "mHPTics t"]
      sleep_until_returns(2) [OF False, where t = t and D = "mHPTics t" and i = i and c = c]
      sleep_until_returns(3) [OF False, where t = t and D = "mHPTics t"]
    show ?thesis
      using Call_SleepToThis False run_sleep_first_event [of g t call env] r(1) r(2) r(3)
      by (simp add: first_now_throws_def SleepToThis_def)
  qed
next
  case Call_Sleep
  then show ?thesis
    using simple_sleeps_quiet(5) [where env = env and g = g and t = t] run_sleep_first_event [of g t call env]
    by (simp add: first_now_throws_def simple_sleeps_flags simple_sleeps_order)
qed

lemma USecSleep_pending_example:
  "USecSleep tsc_statics ((timer_of_tics 1)\<lparr>mInterrupted := True, mCancelled := True\<rparr>)
     5000000 calm_env
   = ((timer_of_tics 1)\<lparr>mInterrupted := False, mCancelled := False\<rparr>,
      [WriteCancelled False, WriteInterrupted False, LockMutex, WaitFor 4996000],
      TargetReached)"
  by (simp add: USecSleep_def BusyUSeconds_tsc tsc_fields timer_of_tics_fields calm_env_def
      interfere_def Let_def s64_def u64_def coarse_wait_def d2i_def is_int64_def INT64_MIN_def
      INT64_MAX_def i2d_exact dadd_def ddiv_def rnd_small)

theorem C10_sleep_discards_pending_interrupt_witness:
  "quiet calm_env \<and>
   \<not> first_now_throws tsc_statics (Call_USecSleep 5000000) calm_env \<and>
   run_sleep tsc_statics ((timer_of_tics 1)\<lparr>mInterrupted := True, mCancelled := True\<rparr>)
     (Call_USecSleep 5000000) calm_env
   = ((timer_of_tics 1)\<lparr>mInterrupted := False, mCancelled := False\<rparr>,
      [WriteCancelled False, WriteInterrupted False, LockMutex, WaitFor 4996000],
      TargetReached) \<and>
   run_sleep tsc_statics (timer_of_tics 1) (Call_USecSleep 5000000) calm_env
   = run_sleep tsc_statics ((timer_of_tics 1)\<lparr>mInterrupted := True, mCancelled := True\<rparr>)
       (Call_USecSleep 5000000) calm_env \<and>
   first_now_throws hpet_today Call_SleepToThis calm_env \<and>
   run_sleep hpet_today ((timer_of_tics 5)\<lparr>mInterrupted := True\<rparr>) Call_SleepToThis calm_env
     = ((timer_of_tics 5)\<lparr>mInterrupted := True, mCancelled := False\<rparr>,
        [WriteCancelled False], Threw Overflow)"
proof -
  have q: "quiet calm_env" by (simp add: quiet_def calm_env_def)
  have n: "\<not> first_now_throws tsc_statics (Call_USecSleep 5000000) calm_env"
    by (simp add: first_now_throws_def)
  have f: "first_now_throws hpet_today Call_SleepToThis calm_env"
    by (simp add: first_now_throws_def now_tics_def Now_def HighPerTimer_tics_def
        hpet_today_def hpet_fields timer_of_tics_fields calm_env_def s64_def Let_def)
  have A: "run_sleep tsc_statics (timer_of_tics 1) (Call_USecSleep 5000000) calm_env
     = run_sleep tsc_statics ((timer_of_tics 1)\<lparr>mInterrupted := True, mCancelled := True\<rparr>)
         (Call_USecSleep 5000000) calm_env"
    using n C10_sleep_discards_pending_interrupt
      [where g = tsc_statics and env = calm_env and call = "Call_USecSleep 5000000"
         and t = "timer_of_tics 1" and i = True and c = True, THEN conjunct2, THEN conjunct1]
    by simp
  have B: "run_sleep hpet_today ((timer_of_tics 5)\<lparr>mInterrupted := True\<rparr>) Call_SleepToThis
             calm_env
     = ((timer_of_tics 5)\<lparr>mInterrupted := True, mCancelled := False\<rparr>,
        [WriteCancelled False], Threw Overflow)"
    using f C10_sleep_discards_pending_interrupt
      [where g = hpet_today and env = calm_env and call = Call_SleepToThis
         and t = "(timer_of_tics 5)\<lparr>mInterrupted := True\<rparr>", THEN conjunct2, THEN conjunct2]
    by simp
  show ?thesis using q n f A B by (simp add: USecSleep_pending_example)
qed

section \<open>Calibration of the TSC frequency: properties\<close>
















lemma foldl_accum:
  "foldl (\<lambda>a d. a + (d - m) * (d - m)) z v = z + sum_list (map (\<lambda>d. (d - m) * (d - m)) v)"
  by (induction v arbitrary: z) (simp_all add: add.assoc)

lemma sum_filter_le:
  fixes f :: "real \<Rightarrow> real"
  assumes "\<And>x. 0 \<le> f x"
  shows "sum_list (map f (filter P v)) \<le> sum_list (map f v)"
  using assms by (induction v) (auto intro: add_increasing)

lemma sum_lower:
  fixes f :: "real \<Rightarrow> real"
  assumes "\<And>x. x \<in> set w \<Longrightarrow> c < f x"
  shows "real (length w) * c \<le> sum_list (map f w)"
  using assms
proof (induction w)
  case Nil
  then show ?case by simp
next
  case (Cons x w)
  then have "c < f x" "real (length w) * c \<le> sum_list (map f w)" by simp_all
  then show ?case by (simp add: algebra_simps)
qed

lemma at_most_one_peak:
  assumes "length v = 5"
  shows "length (peaks (mean_of v) (stdev_of v) v) \<le> 1"
proof (rule ccontr)
  assume "\<not> length (peaks (mean_of v) (stdev_of v) v) \<le> 1"
  then have two: "2 \<le> length (peaks (mean_of v) (stdev_of v) v)" by simp
  define m where "m = mean_of v"
  define f where "f = (\<lambda>d::real. (d - m) * (d - m))"
  define A where "A = sum_list (map f v)"
  have A0: "0 \<le> A" unfolding A_def f_def by (rule sum_list_nonneg) auto
  have sd: "stdev_of v = sqrt (A / 4)"
    using assms by (simp add: stdev_of_def Let_def foldl_accum m_def A_def f_def)
  define w where "w = peaks m (sqrt (A / 4)) v"
  have w2: "2 \<le> length w" using two by (simp add: w_def m_def sd)
  define c :: real where "c = 1.7885"
  have c: "0 \<le> c" "316 / 100 \<le> c\<^sup>2" by (simp_all add: c_def power2_eq_square)
  have pk: "A * (79 / 100) < f x" if "x \<in> set w" for x
  proof -
    have gt: "\<bar>m - x\<bar> > sqrt (A / 4) * c" using that by (simp add: w_def peaks_def c_def)
    have nn: "0 \<le> sqrt (A / 4) * c" using A0 c by simp
    have "(sqrt (A / 4) * c)\<^sup>2 < \<bar>m - x\<bar>\<^sup>2"
      using gt nn by (intro power_strict_mono) simp_all
    moreover have "(sqrt (A / 4) * c)\<^sup>2 = A / 4 * c\<^sup>2"
      using A0 by (simp add: power_mult_distrib)
    moreover have "A / 4 * (316 / 100) \<le> A / 4 * c\<^sup>2"
      using A0 c by (intro mult_left_mono) simp_all
    ultimately have "A * (79 / 100) < \<bar>m - x\<bar>\<^sup>2" by simp
    then show ?thesis by (simp add: f_def power2_eq_square algebra_simps)
  qed
  define B where "B = real (length w) * (A * (79 / 100))"
  have b1: "B \<le> sum_list (map f w)"
    unfolding B_def using pk by (rule sum_lower)
  have b2: "sum_list (map f w) \<le> A"
    unfolding A_def w_def peaks_def by (rule sum_filter_le) (simp add: f_def)
  have b3: "2 * (A * (79 / 100)) \<le> B"
    unfolding B_def using w2 A0 by (intro mult_right_mono) simp_all
  from b1 b2 b3 have "A \<le> 0" by linarith
  with A0 have "A = 0" by simp
  obtain x where x: "x \<in> set w" using w2 by (cases w) auto
  from pk [OF x] \<open>A = 0\<close> have "0 < f x" by simp
  moreover have "f x \<le> A"
  proof -
    have "x \<in> set v" using x by (simp add: w_def peaks_def)
    then have "f x \<le> sum_list (map f v)"
      by (intro member_le_sum_list) (auto simp: f_def)
    then show ?thesis by (simp add: A_def)
  qed
  ultimately show False using \<open>A = 0\<close> by simp
qed




end
